theory Spec2Isabelle
  imports Main
begin

section \<open>JavaScript values and objects\<close>

text \<open>
  The passenger router builds plain JavaScript objects and hands them to \<open>res.json\<close>
  or \<open>res.send\<close>.  A value is modelled by \<open>jsval\<close>; an object is an
  association list in property order.  A signed session token is represented by the
  payload object and the \<open>expiresIn\<close> option that \<open>jwt.sign\<close> received, so
  that a theorem can speak about the subject a token embeds.  A \<open>char\<close> stands for one
  code unit of a JavaScript string (code units below 256).
\<close>

datatype jsval =
    JUndefined
  | JNull
  | JBool bool
  | JNum nat
  | JOid nat
  | JStr string
  | JArr "jsval list"
  | JObj "(string \<times> jsval) list"
  | JJwt "(string \<times> jsval) list" string

type_synonym jsobject = "(string \<times> jsval) list"

text \<open>Assigning a property: an existing key keeps its place, a new key goes last.\<close>

fun set_prop :: "string \<Rightarrow> jsval \<Rightarrow> jsobject \<Rightarrow> jsobject" where
  "set_prop k v [] = [(k, v)]"
| "set_prop k v ((k', v') # ps) =
     (if k' = k then (k, v) # ps else (k', v') # set_prop k v ps)"

text \<open>
  An object literal \<open>{k1: v1, ..., ...src, ...}\<close> assigns its properties from left to
  right; a spread element \<open>...src\<close> assigns the own properties of \<open>src\<close> in their order.
  \<open>obj_lit\<close> takes the properties of the literal with every spread already flattened.
\<close>

definition spread :: "jsobject \<Rightarrow> jsobject \<Rightarrow> jsobject" where
  "spread obj src = fold (\<lambda>(k, v). set_prop k v) src obj"

definition obj_lit :: "jsobject \<Rightarrow> jsobject" where
  "obj_lit ps = spread [] ps"

definition has_key :: "jsobject \<Rightarrow> string \<Rightarrow> bool" where
  "has_key obj k = (k \<in> set (map fst obj))"

definition get_prop :: "jsobject \<Rightarrow> string \<Rightarrow> jsval" where
  "get_prop obj k = (case map_of obj k of None \<Rightarrow> JUndefined | Some v \<Rightarrow> v)"

text \<open>
  \<open>cond && {...}\<close> inside a spread: when \<open>cond\<close> is \<open>false\<close> the spread element is the
  boolean \<open>false\<close>, which has no own properties.
\<close>

definition and_obj :: "bool \<Rightarrow> jsobject \<Rightarrow> jsobject" where
  "and_obj cond obj = (if cond then obj else [])"

text \<open>
  What \<open>JSON.stringify\<close> keeps of a value, which is what a client receives: a property
  whose value is \<open>undefined\<close> is left out of its object, an \<open>undefined\<close> array
  element becomes \<open>null\<close>.  A token is a string and stays as it is.
\<close>

primrec json_of :: "jsval \<Rightarrow> jsval" where
  "json_of JUndefined = JUndefined"
| "json_of JNull = JNull"
| "json_of (JBool b) = JBool b"
| "json_of (JNum n) = JNum n"
| "json_of (JOid i) = JOid i"
| "json_of (JStr s) = JStr s"
| "json_of (JArr xs) =
     JArr (map (\<lambda>x. if x = JUndefined then JNull else x) (map json_of xs))"
| "json_of (JObj ps) =
     JObj (filter (\<lambda>kv. snd kv \<noteq> JUndefined) (map (map_prod id json_of) ps))"
| "json_of (JJwt payload expiresIn) = JJwt payload expiresIn"

section \<open>Documents and the store\<close>

text \<open>
  Modelled from the spec: the Mongoose schema files of the repository (the models of
  passenger, driver, driver post, join request and passenger post) are missing from the
  sources.  Section 3 of the specification lists the attributes of each entity; the field
  names are the ones that the router reads and writes.  Both identity variants (Passenger,
  Driver) have the same shape, and every identity that the router creates has a hashed
  password.  The fields of a driver post are opaque values; a passenger post is returned
  whole and is kept as its JSON value.  An ObjectId is a natural number.
\<close>

type_synonym oid = nat

record avatar_rec =
  av_data :: string
  av_contentType :: string

record identity =
  ident_id :: oid
  email :: string
  password :: string
  name :: string
  phonenumber :: string
  avatar :: "avatar_rec option"

record driverpost =
  dp_id :: oid
  dp_startingLocation :: jsval
  dp_endingLocation :: jsval
  dp_startTime :: jsval
  dp_additionalNotes :: jsval
  dp_numberOfSeats :: jsval
  dp_licensenumber :: jsval
  dp_model :: jsval
  dp_phonenumber :: jsval
  dp_email :: jsval

record joinrequest =
  jr_id :: oid
  jr_passengerId :: oid
  jr_driverPostId :: oid
  jr_status :: string

record passengerpost =
  pp_id :: oid
  pp_passengerId :: oid
  pp_json :: jsval

record store =
  passengers :: "identity list"
  drivers :: "identity list"
  joinrequests :: "joinrequest list"
  driverposts :: "driverpost list"
  passengerposts :: "passengerpost list"

section \<open>Environment, errors and replies\<close>

text \<open>
  What the handlers obtain from libraries, from the database driver and from the helper
  \<open>verifyGoogleToken\<close> (whose file is missing from the sources) is a parameter:
  whether reads and writes of the database succeed, \<open>bcrypt.hash\<close> and
  \<open>bcrypt.compare\<close> (\<open>None\<close> is a rejected promise), \<open>verifyGoogleToken\<close>
  (\<open>None\<close> is a thrown verification error, otherwise the email and name of the
  payload), the string \<open>`${Math.random()*1000000}`\<close>, the base64 encoder of
  \<open>Buffer\<close> and the page that Express's error handler renders for an error no handler
  caught.  The handlers behind \<open>authenticateToken\<close> take the id that the
  middleware has put into \<open>req.user.userId\<close>.
\<close>

datatype js_error = TypeError string | DbError string | LibError string

fun err_message :: "js_error \<Rightarrow> string" where
  "err_message (TypeError m) = m"
| "err_message (DbError m) = m"
| "err_message (LibError m) = m"

record env =
  db_read_ok :: bool
  db_write_ok :: bool
  bcrypt_hash :: "string \<Rightarrow> string option"
  bcrypt_compare :: "string \<Rightarrow> string \<Rightarrow> bool option"
  verifyGoogleToken :: "string \<Rightarrow> (string \<times> string) option"
  random_secret :: string
  to_base64 :: "string \<Rightarrow> string"
  error_page :: "js_error \<Rightarrow> string"

text \<open>
  A reply is the HTTP status code, the body and what was written to the console.
  \<open>res.json(x)\<close> and \<open>res.send(x)\<close> answer with status 200 unless
  \<open>res.status(n)\<close> was called first, and send \<open>JSON.stringify(x)\<close>: the body of a
  reply is \<open>json_of x\<close>, the value that the client receives.
\<close>

record reply =
  http_status :: nat
  body :: jsval
  console :: "js_error list"

definition res_json :: "jsval \<Rightarrow> reply" where
  "res_json b = \<lparr>http_status = 200, body = json_of b, console = []\<rparr>"

definition res_status_send :: "nat \<Rightarrow> jsval \<Rightarrow> reply" where
  "res_status_send n b = \<lparr>http_status = n, body = json_of b, console = []\<rparr>"

definition console_error :: "js_error \<Rightarrow> reply \<Rightarrow> reply" where
  "console_error e r = r\<lparr>console := console r @ [e]\<rparr>"

text \<open>
  An error thrown synchronously by a handler and caught by none: Express's error handler
  logs it and answers 500 with an error page, which is not JSON.
\<close>

definition express_error :: "env \<Rightarrow> js_error \<Rightarrow> reply" where
  "express_error env e = \<lparr>http_status = 500, body = JStr (error_page env e), console = [e]\<rparr>"

definition db_read_error :: js_error where
  "db_read_error = DbError ''database read failed''"

definition db_write_error :: js_error where
  "db_write_error = DbError ''database write failed''"

section \<open>Queries\<close>

definition findById :: "identity list \<Rightarrow> oid \<Rightarrow> identity option" where
  "findById docs i = find (\<lambda>u. ident_id u = i) docs"

definition findOne_email :: "identity list \<Rightarrow> string \<Rightarrow> identity option" where
  "findOne_email docs e = find (\<lambda>u. email u = e) docs"

definition find_email :: "identity list \<Rightarrow> string \<Rightarrow> identity list" where
  "find_email docs e = filter (\<lambda>u. email u = e) docs"

text \<open>\<open>emailExistsInBoth\<close>: one \<open>findOne\<close> on each collection, by the exact string.\<close>

definition emailExistsInBoth :: "store \<Rightarrow> string \<Rightarrow> bool" where
  "emailExistsInBoth st e =
     (let passengerExists = findOne_email (passengers st) e;
          driverExists = findOne_email (drivers st) e
      in if passengerExists \<noteq> None \<or> driverExists \<noteq> None then True else False)"

text \<open>
  \<open>joinRequest.find({ passengerId }).populate('driverPostId')\<close>: the requests of the
  passenger in collection order, each with its driver post looked up by id.  Mongoose
  sets the populated field to \<open>null\<close> when no such post exists.
\<close>

definition requests_of :: "store \<Rightarrow> oid \<Rightarrow> joinrequest list" where
  "requests_of st uid = filter (\<lambda>r. jr_passengerId r = uid) (joinrequests st)"

definition populate :: "store \<Rightarrow> joinrequest \<Rightarrow> joinrequest \<times> driverpost option" where
  "populate st r = (r, find (\<lambda>p. dp_id p = jr_driverPostId r) (driverposts st))"

definition posts_of :: "store \<Rightarrow> oid \<Rightarrow> passengerpost list" where
  "posts_of st uid = filter (\<lambda>p. pp_passengerId p = uid) (passengerposts st)"

section \<open>The join-request listing\<close>

text \<open>The message of V8 for a property read on \<open>null\<close>.\<close>

definition null_read :: "string \<Rightarrow> js_error" where
  "null_read prop = TypeError (''Cannot read properties of null (reading '' @ [CHR 0x27] @ prop @ [CHR 0x27] @ '')'')"

definition undefined_read :: "string \<Rightarrow> js_error" where
  "undefined_read prop = TypeError (''Cannot read properties of undefined (reading '' @ [CHR 0x27] @ prop @ [CHR 0x27] @ '')'')"

text \<open>
  The callback of \<open>JoinRequests.map\<close>, the same text in both handlers.  Its first
  property reads \<open>request.driverPostId._id\<close>, which throws when the populated post is
  \<open>null\<close>.
\<close>

definition rideshareDetails :: "joinrequest \<times> driverpost option \<Rightarrow> js_error + jsobject" where
  "rideshareDetails request =
     (case snd request of
        None \<Rightarrow> Inl (null_read ''_id'')
      | Some post \<Rightarrow>
          Inr (obj_lit
            ([(''postId'', JOid (dp_id post)),
              (''startingLocation'', dp_startingLocation post),
              (''endingLocation'', dp_endingLocation post),
              (''startTime'', dp_startTime post),
              (''status'', JStr (jr_status (fst request))),
              (''additionalNotes'', dp_additionalNotes post),
              (''numberOfSeats'', dp_numberOfSeats post)]
             @ and_obj (jr_status (fst request) = ''accepted'')
                [(''licensenumber'', dp_licensenumber post),
                 (''model'', dp_model post),
                 (''phonenumber'', dp_phonenumber post),
                 (''email'', dp_email post)])))"

text \<open>\<open>Array.prototype.map\<close> with a callback that may throw: the first throw ends it.\<close>

fun js_map :: "('a \<Rightarrow> js_error + 'b) \<Rightarrow> 'a list \<Rightarrow> js_error + 'b list" where
  "js_map f [] = Inr []"
| "js_map f (x # xs) =
     (case f x of
        Inl e \<Rightarrow> Inl e
      | Inr y \<Rightarrow> (case js_map f xs of Inl e \<Rightarrow> Inl e | Inr ys \<Rightarrow> Inr (y # ys)))"

definition get_my_join_requests :: "env \<Rightarrow> store \<Rightarrow> oid \<Rightarrow> reply" where
  "get_my_join_requests env st passengerId =
     (if \<not> db_read_ok env then
        console_error db_read_error
          (res_status_send 500 (JObj [(''message'', JStr ''Server error''),
                                      (''error'', JStr (err_message db_read_error))]))
      else
        let JoinRequests = map (populate st) (requests_of st passengerId) in
        case js_map rideshareDetails JoinRequests of
          Inl error \<Rightarrow>
            console_error error
              (res_status_send 500 (JObj [(''message'', JStr ''Server error''),
                                          (''error'', JStr (err_message error))]))
        | Inr rideshares \<Rightarrow> res_json (JArr (map JObj rideshares)))"

text \<open>\<open>user._doc\<close>: the stored fields of the document, the hashed password among them.\<close>

definition avatar_json :: "avatar_rec \<Rightarrow> jsval" where
  "avatar_json a = JObj [(''data'', JStr (av_data a)), (''contentType'', JStr (av_contentType a))]"

definition doc :: "identity \<Rightarrow> jsobject" where
  "doc u =
     [(''_id'', JOid (ident_id u)),
      (''email'', JStr (email u)),
      (''password'', JStr (password u)),
      (''name'', JStr (name u)),
      (''phonenumber'', JStr (phonenumber u))]
     @ (case avatar u of None \<Rightarrow> [] | Some a \<Rightarrow> [(''avatar'', avatar_json a)])"

definition get_profile :: "env \<Rightarrow> store \<Rightarrow> oid \<Rightarrow> reply" where
  "get_profile env st userId =
     (if \<not> db_read_ok env then
        console_error db_read_error
          (res_status_send 500 (JObj [(''message'', JStr (err_message db_read_error))]))
      else
        case findById (passengers st) userId of
          None \<Rightarrow> res_status_send 404 (JObj [(''message'', JStr ''User not found'')])
        | Some user \<Rightarrow>
           (let avatarBase64 =
                  (case avatar user of
                     None \<Rightarrow> JUndefined
                   | Some a \<Rightarrow> JStr (''data:'' @ av_contentType a @ '';base64,''
                                      @ to_base64 env (av_data a)));
                JoinRequests = map (populate st) (requests_of st userId)
            in case js_map rideshareDetails JoinRequests of
                 Inl error \<Rightarrow>
                   console_error error
                     (res_status_send 500 (JObj [(''message'', JStr (err_message error))]))
               | Inr rideshares \<Rightarrow>
                   let passengerPosts = posts_of st userId;
                       userProfile = obj_lit
                         (doc user
                          @ [(''avatar'', avatarBase64),
                             (''rideshares'', JArr (map JObj rideshares)),
                             (''passengerPosts'', JArr (map pp_json passengerPosts))])
                   in res_json (JObj userProfile)))"

section \<open>Strings: trimming and the validation patterns\<close>

text \<open>
  \<open>String.prototype.trim\<close> removes white space and line terminators from both ends;
  these are the ones among the code units below 256.
\<close>

definition is_js_space :: "char \<Rightarrow> bool" where
  "is_js_space c = (of_char c \<in> set [0x09, 0x0A, 0x0B, 0x0C, 0x0D, 0x20, 0xA0 :: nat])"

definition trim :: "string \<Rightarrow> string" where
  "trim s = rev (dropWhile is_js_space (rev (dropWhile is_js_space s)))"

text \<open>
  The patterns of the register handler use character classes, concatenation, \<open>+\<close>,
  \<open>*\<close> and bounded repetition, anchored at both ends, so \<open>pattern.test(s)\<close> is
  membership of the whole string in the pattern's language.  A class is a list of
  inclusive code-unit ranges.  Matching is by derivatives.  \<open>Rep r lo hi\<close> stands for
  \<open>r{lo,hi}\<close>; with \<open>hi < lo\<close> (which JavaScript refuses to compile) it matches nothing.
\<close>

datatype rx =
    Nul
  | Eps
  | Cls "(char \<times> char) list"
  | Seq rx rx
  | Alt rx rx
  | Star rx
  | Plus rx
  | Rep rx nat nat

definition in_cls :: "(char \<times> char) list \<Rightarrow> char \<Rightarrow> bool" where
  "in_cls rs c = list_ex (\<lambda>(lo, hi). (of_char lo :: nat) \<le> of_char c \<and> (of_char c :: nat) \<le> of_char hi) rs"

fun nullable :: "rx \<Rightarrow> bool" where
  "nullable Nul = False"
| "nullable Eps = True"
| "nullable (Cls rs) = False"
| "nullable (Seq r s) = (nullable r \<and> nullable s)"
| "nullable (Alt r s) = (nullable r \<or> nullable s)"
| "nullable (Star r) = True"
| "nullable (Plus r) = nullable r"
| "nullable (Rep r lo hi) = (lo = 0 \<or> (nullable r \<and> lo \<le> hi))"

fun deriv :: "char \<Rightarrow> rx \<Rightarrow> rx" where
  "deriv c Nul = Nul"
| "deriv c Eps = Nul"
| "deriv c (Cls rs) = (if in_cls rs c then Eps else Nul)"
| "deriv c (Seq r s) =
     (if nullable r then Alt (Seq (deriv c r) s) (deriv c s) else Seq (deriv c r) s)"
| "deriv c (Alt r s) = Alt (deriv c r) (deriv c s)"
| "deriv c (Star r) = Seq (deriv c r) (Star r)"
| "deriv c (Plus r) = Seq (deriv c r) (Star r)"
| "deriv c (Rep r lo hi) = (if hi = 0 then Nul else Seq (deriv c r) (Rep r (lo - 1) (hi - 1)))"

definition test :: "rx \<Rightarrow> string \<Rightarrow> bool" where
  "test r s = nullable (fold deriv s r)"

text \<open>
  What a pattern means, to check the matcher against: \<open>matches r s\<close> when the whole
  string \<open>s\<close> is in the language of \<open>r\<close>; for \<open>Rep r lo hi\<close>, when \<open>s\<close> is made of
  between \<open>lo\<close> and \<open>hi\<close> strings that \<open>r\<close> matches.
\<close>

inductive matches :: "rx \<Rightarrow> string \<Rightarrow> bool" where
  m_eps: "matches Eps []"
| m_cls: "in_cls rs c \<Longrightarrow> matches (Cls rs) [c]"
| m_seq: "matches r u \<Longrightarrow> matches s v \<Longrightarrow> matches (Seq r s) (u @ v)"
| m_alt1: "matches r u \<Longrightarrow> matches (Alt r s) u"
| m_alt2: "matches s u \<Longrightarrow> matches (Alt r s) u"
| m_star0: "matches (Star r) []"
| m_star: "matches r u \<Longrightarrow> matches (Star r) v \<Longrightarrow> matches (Star r) (u @ v)"
| m_plus: "matches r u \<Longrightarrow> matches (Star r) v \<Longrightarrow> matches (Plus r) (u @ v)"
| m_rep0: "matches (Rep r 0 hi) []"
| m_rep: "matches r u \<Longrightarrow> matches (Rep r (lo - 1) hi) v \<Longrightarrow> matches (Rep r lo (Suc hi)) (u @ v)"

text \<open>\<open>\w\<close> is \<open>[A-Za-z0-9_]\<close>; \<open>\d\<close> is \<open>[0-9]\<close>.\<close>

definition word_cls :: "(char \<times> char) list" where
  "word_cls = [(CHR ''A'', CHR ''Z''), (CHR ''a'', CHR ''z''), (CHR ''0'', CHR ''9''), (CHR ''_'', CHR ''_'')]"

definition digit_cls :: "(char \<times> char) list" where
  "digit_cls = [(CHR ''0'', CHR ''9'')]"

text \<open>
  \<^verbatim>\<open>/^[\w-\.]+@([\w-]+\.)+[\w-]{2,4}$/\<close>: in \<open>[\w-\.]\<close> the hyphen stands between a
  class escape and a character, so it is a literal hyphen.
\<close>

definition email_pattern :: rx where
  "email_pattern =
     Seq (Plus (Cls (word_cls @ [(CHR ''-'', CHR ''-''), (CHR ''.'', CHR ''.'')])))
    (Seq (Cls [(CHR ''@'', CHR ''@'')])
    (Seq (Plus (Seq (Plus (Cls (word_cls @ [(CHR ''-'', CHR ''-'')]))) (Cls [(CHR ''.'', CHR ''.'')])))
         (Rep (Cls (word_cls @ [(CHR ''-'', CHR ''-'')])) 2 4)))"

text \<open>\<^verbatim>\<open>/^[a-zA-z]*$/\<close>: the second range runs from \<open>A\<close> to the lower-case \<open>z\<close>.\<close>

definition name_pattern :: rx where
  "name_pattern = Star (Cls [(CHR ''a'', CHR ''z''), (CHR ''A'', CHR ''z'')])"

text \<open>\<^verbatim>\<open>/^\d{10}$/\<close>\<close>

definition phone_pattern :: rx where
  "phone_pattern = Rep (Cls digit_cls) 10 10"

text \<open>
  The code units that the class \<open>[a-zA-z]\<close> admits, \<open>0x41\<close> to \<open>0x7A\<close>, and the
  alphabetic ones among them, which is what the specification asks of a name.
\<close>

definition in_A_to_z :: "char \<Rightarrow> bool" where
  "in_A_to_z c = ((0x41 :: nat) \<le> of_char c \<and> (of_char c :: nat) \<le> 0x7A)"

definition alphabetic :: "char \<Rightarrow> bool" where
  "alphabetic c =
     (((0x41 :: nat) \<le> of_char c \<and> (of_char c :: nat) \<le> 0x5A)
      \<or> ((0x61 :: nat) \<le> of_char c \<and> (of_char c :: nat) \<le> 0x7A))"

definition is_digit :: "char \<Rightarrow> bool" where
  "is_digit c = ((0x30 :: nat) \<le> of_char c \<and> (of_char c :: nat) \<le> 0x39)"

section \<open>Registration\<close>

record register_body =
  rb_email :: string
  rb_password :: string
  rb_name :: string
  rb_phonenumber :: string

definition failed :: "string \<Rightarrow> jsval" where
  "failed message = JObj [(''status'', JStr ''FAILED''), (''message'', JStr message)]"

text \<open>\<open>new Passenger(...)\<close> draws an ObjectId that no stored identity has.\<close>

definition fresh_id :: "store \<Rightarrow> oid" where
  "fresh_id st = Suc (fold max (map ident_id (passengers st @ drivers st)) 0)"

text \<open>\<open>newPassenger.save()\<close> of a new document adds it to the collection.\<close>

definition insert_passenger :: "identity \<Rightarrow> store \<Rightarrow> store" where
  "insert_passenger u st = st\<lparr>passengers := passengers st @ [u]\<rparr>"

text \<open>
  \<open>router.post('/register')\<close> from its first line on, for a body whose four fields are
  strings, so that each call of \<open>trim\<close> returns; \<open>post_register\<close> below is the handler
  on any body.  The reply comes with the store after the request.  The salt rounds are the
  constant 10 at every call of \<open>bcrypt.hash\<close>, so \<open>bcrypt_hash\<close> takes the secret alone.
\<close>

definition register :: "env \<Rightarrow> store \<Rightarrow> register_body \<Rightarrow> reply \<times> store" where
  "register env st b =
     (let email = trim (rb_email b);
          password = trim (rb_password b);
          name = trim (rb_name b);
          phonenumber = trim (rb_phonenumber b)
      in
      if email = [] \<or> password = [] \<or> name = [] \<or> phonenumber = [] then
        (res_json (failed ''Empty Input for some fields''), st)
      else if \<not> test email_pattern email then
        (res_json (failed ''Invalid Email''), st)
      else if \<not> test name_pattern name then
        (res_json (failed ''Invalid Name''), st)
      else if \<not> test phone_pattern phonenumber then
        (res_json (failed ''Invalid PhoneNumber''), st)
      else if length password < 8 then
        (res_json (failed ''Invalid Password''), st)
      else if \<not> db_read_ok env then
        (console_error db_read_error
           (res_json (failed ''Error Occur when trying to check for existing User'')), st)
      else if emailExistsInBoth st email then
        (res_json (failed ''User with this email already exist as a driver or passenger''), st)
      else
        (case bcrypt_hash env password of
           None \<Rightarrow> (res_json (failed ''Error Occur when hashing password''), st)
         | Some hashPassword \<Rightarrow>
             (let newPassenger =
                    \<lparr>ident_id = fresh_id st, email = email, password = hashPassword,
                     name = name, phonenumber = phonenumber, avatar = None\<rparr>
              in if \<not> db_write_ok env then
                   (res_json (failed ''Error Occur when trying to save user account''), st)
                 else
                   (res_json (JObj [(''status'', JStr ''SUCCESS''),
                                    (''message'', JStr ''Registration Successfully''),
                                    (''data'', JObj (doc newPassenger))]),
                    insert_passenger newPassenger st))))"

text \<open>
  The fields of \<open>req.body\<close> as the handler receives them: any JSON value, or
  \<open>undefined\<close> for a field that the body lacks.
\<close>

record register_request =
  rq_email :: jsval
  rq_password :: jsval
  rq_name :: jsval
  rq_phonenumber :: jsval

text \<open>
  \<open>x.trim()\<close> for a field \<open>x\<close> of the body: only a string has the method.  On
  \<open>undefined\<close> and \<open>null\<close> the property read throws, on any other value the call does.
  \<open>Inr\<close> is the string that receives the call.
\<close>

fun trim_receiver :: "string \<Rightarrow> jsval \<Rightarrow> js_error + string" where
  "trim_receiver field (JStr s) = Inr s"
| "trim_receiver field JUndefined = Inl (undefined_read ''trim'')"
| "trim_receiver field JNull = Inl (null_read ''trim'')"
| "trim_receiver field v = Inl (TypeError (field @ ''.trim is not a function''))"

text \<open>
  \<open>router.post('/register')\<close> on any body.  The four calls of \<open>trim\<close> come first, in
  the order email, password, name, phone number, outside any \<open>try\<close> or promise: the first
  that throws ends the handler, and Express answers.  When all four return, the handler
  goes on as \<open>register\<close> (which takes the trimmed values).
\<close>

definition post_register :: "env \<Rightarrow> store \<Rightarrow> register_request \<Rightarrow> reply \<times> store" where
  "post_register env st rq =
     (case trim_receiver ''email'' (rq_email rq) of
        Inl e \<Rightarrow> (express_error env e, st)
      | Inr email' \<Rightarrow>
     (case trim_receiver ''password'' (rq_password rq) of
        Inl e \<Rightarrow> (express_error env e, st)
      | Inr password' \<Rightarrow>
     (case trim_receiver ''name'' (rq_name rq) of
        Inl e \<Rightarrow> (express_error env e, st)
      | Inr name' \<Rightarrow>
     (case trim_receiver ''phonenumber'' (rq_phonenumber rq) of
        Inl e \<Rightarrow> (express_error env e, st)
      | Inr phonenumber' \<Rightarrow>
          register env st \<lparr>rb_email = email', rb_password = password',
                           rb_name = name', rb_phonenumber = phonenumber'\<rparr>))))"

section \<open>Local sign-in\<close>

record signin_body =
  sb_email :: string
  sb_password :: string

text \<open>An array is truthy, the empty one too.\<close>

definition truthy_array :: "'a list \<Rightarrow> bool" where
  "truthy_array xs = True"

text \<open>
  \<open>router.post('/signin')\<close>, for a body whose two fields are strings.  With no
  passenger of that email, \<open>data[0]._id\<close> throws inside the \<open>then\<close> callback, and
  the outer \<open>catch\<close> answers.  The token is signed before the password is compared and
  is sent only when the comparison succeeds.
\<close>

definition signin :: "env \<Rightarrow> store \<Rightarrow> signin_body \<Rightarrow> reply" where
  "signin env st b =
     (let email = trim (sb_email b);
          password = trim (sb_password b)
      in
      if email = [] \<or> password = [] then
        res_json (failed ''Empty input'')
      else if \<not> db_read_ok env then
        res_json (failed ''No existing User with input email'')
      else
        (let data = find_email (passengers st) email in
         if truthy_array data then
           (case data of
              [] \<Rightarrow> res_json (failed ''No existing User with input email'')
            | first # _ \<Rightarrow>
                (let token = JJwt [(''userId'', JOid (ident_id first))] ''24h'';
                     hashPassword = identity.password first
                 in case bcrypt_compare env password hashPassword of
                      None \<Rightarrow> res_json (failed ''Error Occur when trying to check for password'')
                    | Some result \<Rightarrow>
                        if result then
                          res_json (JObj [(''status'', JStr ''Success''),
                                          (''message'', JStr ''User Successfully logged in''),
                                          (''data'', JArr (map (\<lambda>u. JObj (doc u)) data)),
                                          (''token'', token)])
                        else res_json (failed ''Wrong password'')))
         else res_json (failed ''Invalid credential'')))"

section \<open>Profile update\<close>

text \<open>A field of the update body may be absent (\<open>None\<close>, JavaScript's \<open>undefined\<close>).\<close>

record update_body =
  ub_name :: "string option"
  ub_phonenumber :: "string option"
  ub_email :: "string option"
  ub_newPassword :: "string option"

text \<open>\<open>if (x)\<close> on a string or \<open>undefined\<close>: false for \<open>undefined\<close> and for the empty string.\<close>

fun truthy :: "string option \<Rightarrow> bool" where
  "truthy None = False"
| "truthy (Some s) = (s \<noteq> [])"

text \<open>\<open>user.save()\<close> of a loaded document writes it back under its id.\<close>

definition save_passenger :: "identity \<Rightarrow> store \<Rightarrow> store" where
  "save_passenger user st =
     st\<lparr>passengers := map (\<lambda>u. if ident_id u = ident_id user then user else u) (passengers st)\<rparr>"

definition hash_error :: js_error where
  "hash_error = LibError ''bcrypt hash failed''"

text \<open>The block ``Update name and phone number''.\<close>

definition update_name_phone :: "update_body \<Rightarrow> identity \<Rightarrow> identity" where
  "update_name_phone b user =
     (let user1 = (case ub_name b of
                     Some n \<Rightarrow> if truthy (Some n) then user\<lparr>name := trim n\<rparr> else user
                   | None \<Rightarrow> user)
      in (case ub_phonenumber b of
            Some p \<Rightarrow> if truthy (Some p) then user1\<lparr>phonenumber := trim p\<rparr> else user1
          | None \<Rightarrow> user1))"

text \<open>
  The block ``Update email after validation'': the guard compares and looks up the
  submitted string, the assignment stores the trimmed one.  \<open>Inl\<close> is the early return.
\<close>

definition update_email :: "store \<Rightarrow> update_body \<Rightarrow> identity \<Rightarrow> reply + identity" where
  "update_email st b user =
     (case ub_email b of
        None \<Rightarrow> Inr user
      | Some e \<Rightarrow>
          if truthy (Some e) \<and> e \<noteq> email user then
            (let emailTaken = emailExistsInBoth st e in
             if emailTaken then
               Inl (res_status_send 400 (JObj [(''message'', JStr ''Email already in use'')]))
             else Inr (user\<lparr>email := trim e\<rparr>))
          else Inr user)"

text \<open>The block ``Update password''; a rejected hash is caught by the handler's \<open>catch\<close>.\<close>

definition update_password :: "env \<Rightarrow> update_body \<Rightarrow> identity \<Rightarrow> reply + identity" where
  "update_password env b user =
     (case ub_newPassword b of
        None \<Rightarrow> Inr user
      | Some newPassword \<Rightarrow>
          if truthy (Some newPassword) then
            (case bcrypt_hash env newPassword of
               None \<Rightarrow> Inl (res_status_send 500 (JObj [(''message'', JStr (err_message hash_error))]))
             | Some hashPassword \<Rightarrow> Inr (user\<lparr>password := hashPassword\<rparr>))
          else Inr user)"

text \<open>\<open>router.put('/update')\<close>, for the authenticated \<open>userId\<close>.\<close>

definition update :: "env \<Rightarrow> store \<Rightarrow> oid \<Rightarrow> update_body \<Rightarrow> reply \<times> store" where
  "update env st userId b =
     (if \<not> db_read_ok env then
        (res_status_send 500 (JObj [(''message'', JStr (err_message db_read_error))]), st)
      else
        case findById (passengers st) userId of
          None \<Rightarrow> (res_status_send 404 (JObj [(''message'', JStr ''User not found'')]), st)
        | Some user \<Rightarrow>
            (case update_email st b (update_name_phone b user) of
               Inl early \<Rightarrow> (early, st)
             | Inr user2 \<Rightarrow>
                 (case update_password env b user2 of
                    Inl early \<Rightarrow> (early, st)
                  | Inr user3 \<Rightarrow>
                      if \<not> db_write_ok env then
                        (res_status_send 500 (JObj [(''message'', JStr (err_message db_write_error))]), st)
                      else
                        (res_status_send 200
                           (JObj [(''status'', JStr ''SUCCESS''),
                                  (''message'', JStr ''Profile updated successfully''),
                                  (''data'', JObj (doc user3))]),
                         save_passenger user3 st))))"

section \<open>Federated sign-up\<close>

text \<open>
  The variable \<open>user\<close> of the handler first holds the boolean that
  \<open>emailExistsInBoth\<close> returns and, on the creating branch, the new document.
  \<open>user._id\<close> on a boolean is \<open>undefined\<close>.
\<close>

datatype user_val = UserFlag bool | UserDoc identity

fun user_id_prop :: "user_val \<Rightarrow> jsval" where
  "user_id_prop (UserFlag f) = JUndefined"
| "user_id_prop (UserDoc u) = JOid (ident_id u)"

fun user_json :: "user_val \<Rightarrow> jsval" where
  "user_json (UserFlag f) = JBool f"
| "user_json (UserDoc u) = JObj (doc u)"

definition verify_error :: js_error where
  "verify_error = LibError ''token verification failed''"

definition internal_error :: "js_error \<Rightarrow> reply" where
  "internal_error e =
     console_error e (res_status_send 500 (JObj [(''message'', JStr ''Internal server error'')]))"

text \<open>The creating branch: \<open>new Passenger({...})\<close> with a hashed random secret, then \<open>save\<close>.\<close>

definition create_google_user :: "env \<Rightarrow> store \<Rightarrow> string \<Rightarrow> string \<Rightarrow> js_error + (user_val \<times> store)" where
  "create_google_user env st payload_email payload_name =
     (case bcrypt_hash env (random_secret env) of
        None \<Rightarrow> Inl hash_error
      | Some h \<Rightarrow>
          (let user = \<lparr>ident_id = fresh_id st, email = payload_email, password = h,
                       name = payload_name, phonenumber = [], avatar = None\<rparr>
           in if \<not> db_write_ok env then Inl db_write_error
              else Inr (UserDoc user, insert_passenger user st)))"

text \<open>\<open>router.post('/google-signup')\<close>, given the ID token of the request body.\<close>

definition google_signup :: "env \<Rightarrow> store \<Rightarrow> string \<Rightarrow> reply \<times> store" where
  "google_signup env st token =
     (case verifyGoogleToken env token of
        None \<Rightarrow> (internal_error verify_error, st)
      | Some (payload_email, payload_name) \<Rightarrow>
          if \<not> db_read_ok env then (internal_error db_read_error, st)
          else
            (let user = UserFlag (emailExistsInBoth st payload_email) in
             case (if user = UserFlag False then create_google_user env st payload_email payload_name
                   else Inr (user, st)) of
               Inl e \<Rightarrow> (internal_error e, st)
             | Inr (user', st') \<Rightarrow>
                 (let authToken = JJwt [(''userId'', user_id_prop user')] ''24h'' in
                  (res_status_send 200
                     (JObj [(''message'', JStr ''User authenticated successfully''),
                            (''token'', authToken),
                            (''user'', user_json user')]),
                   st'))))"

section \<open>Reading a reply\<close>

text \<open>Property access on a value, and whether an object holds a key of its own.\<close>

fun js_prop :: "jsval \<Rightarrow> string \<Rightarrow> jsval" where
  "js_prop (JObj obj) k = get_prop obj k"
| "js_prop v k = JUndefined"

fun has_own :: "jsval \<Rightarrow> string \<Rightarrow> bool" where
  "has_own (JObj obj) k = has_key obj k"
| "has_own v k = False"

fun keys_of :: "jsval \<Rightarrow> string list" where
  "keys_of (JObj obj) = map fst obj"
| "keys_of v = []"

fun js_index :: "jsval \<Rightarrow> nat \<Rightarrow> jsval" where
  "js_index (JArr xs) i = (if i < length xs then xs ! i else JUndefined)"
| "js_index v i = JUndefined"

text \<open>The subject that a signed token embeds: the \<open>userId\<close> of its payload.\<close>

fun token_subject :: "jsval \<Rightarrow> jsval" where
  "token_subject (JJwt payload expiresIn) = get_prop payload ''userId''"
| "token_subject v = JUndefined"

section \<open>The disclosure policy as a predicate\<close>

definition contact_keys :: "string list" where
  "contact_keys = [''licensenumber'', ''model'', ''phonenumber'', ''email'']"

definition route_keys :: "string list" where
  "route_keys = [''startingLocation'', ''endingLocation'', ''startTime'', ''numberOfSeats'',
                 ''additionalNotes'', ''status'']"

text \<open>
  The returned view \<open>v\<close> of the request \<open>r\<close> whose driver post is \<open>p\<close>: it holds the
  post's id and the request's status; under each route key it holds what the client
  receives of the post's value; under each contact key it holds what the client receives
  of the post's value when the status is \<open>accepted\<close>, and nothing otherwise.  A key is
  present exactly when its value is not \<open>undefined\<close>, and there are no other keys.
\<close>

definition discloses :: "joinrequest \<Rightarrow> driverpost \<Rightarrow> jsval \<Rightarrow> bool" where
  "discloses r p v =
     (js_prop v ''postId'' = JOid (dp_id p)
      \<and> js_prop v ''status'' = JStr (jr_status r)
      \<and> js_prop v ''startingLocation'' = json_of (dp_startingLocation p)
      \<and> js_prop v ''endingLocation'' = json_of (dp_endingLocation p)
      \<and> js_prop v ''startTime'' = json_of (dp_startTime p)
      \<and> js_prop v ''additionalNotes'' = json_of (dp_additionalNotes p)
      \<and> js_prop v ''numberOfSeats'' = json_of (dp_numberOfSeats p)
      \<and> js_prop v ''licensenumber''
          = (if jr_status r = ''accepted'' then json_of (dp_licensenumber p) else JUndefined)
      \<and> js_prop v ''model''
          = (if jr_status r = ''accepted'' then json_of (dp_model p) else JUndefined)
      \<and> js_prop v ''phonenumber''
          = (if jr_status r = ''accepted'' then json_of (dp_phonenumber p) else JUndefined)
      \<and> js_prop v ''email''
          = (if jr_status r = ''accepted'' then json_of (dp_email p) else JUndefined)
      \<and> list_all (\<lambda>k. has_own v k = (js_prop v k \<noteq> JUndefined))
            (''postId'' # route_keys @ contact_keys)
      \<and> list_all (\<lambda>k. has_own v k = (jr_status r = ''accepted'' \<and> js_prop v k \<noteq> JUndefined))
            contact_keys
      \<and> list_all (\<lambda>k. k \<in> set (''postId'' # route_keys @ contact_keys)) (keys_of v))"

text \<open>
  The error that ends a listing with an unresolved driver post: the failed read of the
  database when the database is down, else the \<open>TypeError\<close> of the property read.
\<close>

definition listing_error :: "env \<Rightarrow> js_error" where
  "listing_error env = (if db_read_ok env then null_read ''_id'' else db_read_error)"

text \<open>The driver post that \<open>populate\<close> finds for a request.\<close>

definition post_of :: "store \<Rightarrow> joinrequest \<Rightarrow> driverpost option" where
  "post_of st r = snd (populate st r)"

text \<open>A returned view belongs to a request: the request's post resolves and the view discloses it.\<close>

definition view_of :: "store \<Rightarrow> joinrequest \<Rightarrow> jsval \<Rightarrow> bool" where
  "view_of st r v = (case post_of st r of None \<Rightarrow> False | Some p \<Rightarrow> discloses r p v)"

section \<open>A sample deployment\<close>

text \<open>
  Two passengers (Alice and Bob), one driver (Dave), two driver posts, and Alice's two
  join requests: a pending one and an accepted one.  \<open>sample_dangling\<close> adds a third request
  whose driver post has been deleted.
\<close>

definition sample_env :: env where
  "sample_env =
     \<lparr>db_read_ok = True, db_write_ok = True,
      bcrypt_hash = (\<lambda>s. Some (''$2b$10$'' @ s)),
      bcrypt_compare = (\<lambda>s h. Some (h = ''$2b$10$'' @ s)),
      verifyGoogleToken = (\<lambda>t. if t = ''alice-id-token'' then Some (''a@b.com'', ''Alice'')
                                else if t = ''carol-id-token'' then Some (''carol@x.org'', ''Carol'')
                                else None),
      random_secret = ''271828.1828'',
      to_base64 = (\<lambda>s. s),
      error_page = (\<lambda>e. ''Internal Server Error'')\<rparr>"

definition alice :: identity where
  "alice = \<lparr>ident_id = 1, email = ''a@b.com'', password = ''$2b$10$password1'',
            name = ''Alice'', phonenumber = ''1234567890'', avatar = None\<rparr>"

definition bob :: identity where
  "bob = \<lparr>ident_id = 3, email = ''bob@x.org'', password = ''$2b$10$hunter2hunter2'',
          name = ''Bob'', phonenumber = ''5550001111'', avatar = None\<rparr>"

definition dave :: identity where
  "dave = \<lparr>ident_id = 2, email = ''dave@cars.com'', password = ''$2b$10$drivesafe'',
           name = ''Dave'', phonenumber = ''5551234567'', avatar = None\<rparr>"

definition post10 :: driverpost where
  "post10 = \<lparr>dp_id = 10, dp_startingLocation = JStr ''Westwood'', dp_endingLocation = JStr ''LAX'',
             dp_startTime = JStr ''2024-03-01T08:00'', dp_additionalNotes = JStr ''no pets'',
             dp_numberOfSeats = JNum 3, dp_licensenumber = JStr ''7ABC123'',
             dp_model = JStr ''Civic'', dp_phonenumber = JStr ''5551234567'',
             dp_email = JStr ''dave@cars.com''\<rparr>"

definition post11 :: driverpost where
  "post11 = \<lparr>dp_id = 11, dp_startingLocation = JStr ''LAX'', dp_endingLocation = JStr ''Westwood'',
             dp_startTime = JStr ''2024-03-05T18:30'', dp_additionalNotes = JUndefined,
             dp_numberOfSeats = JNum 2, dp_licensenumber = JStr ''7ABC123'',
             dp_model = JStr ''Civic'', dp_phonenumber = JStr ''5551234567'',
             dp_email = JStr ''dave@cars.com''\<rparr>"

definition sample_store :: store where
  "sample_store =
     \<lparr>passengers = [alice, bob], drivers = [dave],
      joinrequests =
        [\<lparr>jr_id = 100, jr_passengerId = 1, jr_driverPostId = 10, jr_status = ''pending''\<rparr>,
         \<lparr>jr_id = 101, jr_passengerId = 1, jr_driverPostId = 11, jr_status = ''accepted''\<rparr>],
      driverposts = [post10, post11],
      passengerposts = []\<rparr>"

definition sample_dangling :: store where
  "sample_dangling =
     sample_store\<lparr>joinrequests := joinrequests sample_store @
        [\<lparr>jr_id = 102, jr_passengerId = 1, jr_driverPostId = 99, jr_status = ''pending''\<rparr>]\<rparr>"

section \<open>Conditions on requests\<close>

text \<open>
  For an update request: no email is submitted (absent or empty), or it is the
  passenger's current one, or neither the submitted string nor its trimmed form is the
  email of an identity in the store.
\<close>

definition email_not_taken :: "store \<Rightarrow> identity \<Rightarrow> string option \<Rightarrow> bool" where
  "email_not_taken st user v =
     (case v of
        None \<Rightarrow> True
      | Some e \<Rightarrow> e = [] \<or> e = email user
                 \<or> (\<not> emailExistsInBoth st e \<and> \<not> emailExistsInBoth st (trim e)))"

text \<open>Whether the four fields of a register body are strings, and those strings.\<close>

fun is_str :: "jsval \<Rightarrow> bool" where
  "is_str (JStr s) = True"
| "is_str v = False"

fun str_of :: "jsval \<Rightarrow> string" where
  "str_of (JStr s) = s"
| "str_of v = []"

definition all_strings :: "register_request \<Rightarrow> bool" where
  "all_strings rq =
     (is_str (rq_email rq) \<and> is_str (rq_password rq) \<and> is_str (rq_name rq)
      \<and> is_str (rq_phonenumber rq))"

definition strings_of :: "register_request \<Rightarrow> register_body" where
  "strings_of rq =
     \<lparr>rb_email = str_of (rq_email rq), rb_password = str_of (rq_password rq),
      rb_name = str_of (rq_name rq), rb_phonenumber = str_of (rq_phonenumber rq)\<rparr>"

definition as_request :: "register_body \<Rightarrow> register_request" where
  "as_request b =
     \<lparr>rq_email = JStr (rb_email b), rq_password = JStr (rb_password b),
      rq_name = JStr (rb_name b), rq_phonenumber = JStr (rb_phonenumber b)\<rparr>"

text \<open>
  The message of the first check of the register handler that a body of four strings does
  not pass, among the five checks that precede the lookup, in the handler's order;
  \<open>None\<close> when it passes them all.
\<close>

definition failed_check :: "register_body \<Rightarrow> string option" where
  "failed_check b =
     (if trim (rb_email b) = [] \<or> trim (rb_password b) = [] \<or> trim (rb_name b) = []
         \<or> trim (rb_phonenumber b) = [] then Some ''Empty Input for some fields''
      else if \<not> test email_pattern (trim (rb_email b)) then Some ''Invalid Email''
      else if \<not> test name_pattern (trim (rb_name b)) then Some ''Invalid Name''
      else if \<not> test phone_pattern (trim (rb_phonenumber b)) then Some ''Invalid PhoneNumber''
      else if length (trim (rb_password b)) < 8 then Some ''Invalid Password''
      else None)"

definition lookup_failed_message :: string where
  "lookup_failed_message = ''Error Occur when trying to check for existing User''"

definition duplicate_message :: string where
  "duplicate_message = ''User with this email already exist as a driver or passenger''"

text \<open>The messages of the failure replies of the register handler, in source order.\<close>

definition register_failures :: "string list" where
  "register_failures =
     [''Empty Input for some fields'', ''Invalid Email'', ''Invalid Name'', ''Invalid PhoneNumber'',
      ''Invalid Password'', ''Error Occur when trying to check for existing User'',
      ''User with this email already exist as a driver or passenger'',
      ''Error Occur when hashing password'', ''Error Occur when trying to save user account'']"

section \<open>Requests used in the examples\<close>

definition alice_registration :: register_body where
  "alice_registration = \<lparr>rb_email = ''a@b.com'', rb_password = ''password1'',
                          rb_name = ''Alice'', rb_phonenumber = ''1234567890''\<rparr>"

definition alice_signin :: signin_body where
  "alice_signin = \<lparr>sb_email = ''a@b.com'', sb_password = ''password1''\<rparr>"

definition missing_phone :: register_request where
  "missing_phone = \<lparr>rq_email = JStr ''new@x.org'', rq_password = JStr ''password1'',
                     rq_name = JStr ''Alice'', rq_phonenumber = JUndefined\<rparr>"

definition numeric_phone :: register_request where
  "numeric_phone = \<lparr>rq_email = JStr ''dave@cars.com'', rq_password = JStr ''password1'',
                     rq_name = JStr ''Dave'', rq_phonenumber = JNum 555\<rparr>"

definition blank_email_signin :: signin_body where
  "blank_email_signin = \<lparr>sb_email = '' '', sb_password = ''password1''\<rparr>"

definition dave_again :: register_body where
  "dave_again = \<lparr>rb_email = '' dave@cars.com '', rb_password = ''password1'',
                  rb_name = ''Dave'', rb_phonenumber = ''5551234567''\<rparr>"

definition dave_digit :: register_body where
  "dave_digit = \<lparr>rb_email = ''dave@cars.com'', rb_password = ''password1'',
                  rb_name = ''D4ve'', rb_phonenumber = ''5551234567''\<rparr>"

definition underscore_name :: register_body where
  "underscore_name = \<lparr>rb_email = ''new@x.org'', rb_password = ''password1'',
                       rb_name = ''Al_ice'', rb_phonenumber = ''1234567890''\<rparr>"

definition blank_password :: signin_body where
  "blank_password = \<lparr>sb_email = ''a@b.com'', sb_password = ''   ''\<rparr>"

definition wrong_password :: signin_body where
  "wrong_password = \<lparr>sb_email = '' a@b.com'', sb_password = ''letmein123''\<rparr>"

definition padded_email_update :: update_body where
  "padded_email_update = \<lparr>ub_name = None, ub_phonenumber = None,
      ub_email = Some '' bob@x.org'', ub_newPassword = None\<rparr>"

definition unvalidated_update :: update_body where
  "unvalidated_update = \<lparr>ub_name = Some '' B0b! '', ub_phonenumber = Some ''12'',
      ub_email = Some ''not an email'', ub_newPassword = None\<rparr>"

section \<open>Objects: keys and lookups\<close>

lemma keys_set_prop: "fst ` set (set_prop k v obj) = insert k (fst ` set obj)"
proof (induction obj)
  case Nil
  show ?case by simp
next
  case (Cons p obj)
  obtain k' v' where p: "p = (k', v')" by (cases p)
  show ?case using Cons.IH by (auto simp: p)
qed

lemma map_of_set_prop: "map_of (set_prop k v obj) = (map_of obj)(k \<mapsto> v)"
  by (induction obj) (auto simp: fun_eq_iff)

lemma keys_spread: "fst ` set (spread obj src) = fst ` set obj \<union> fst ` set src"
proof (induction src arbitrary: obj)
  case Nil
  show ?case by (simp add: spread_def)
next
  case (Cons p src)
  obtain k v where p: "p = (k, v)" by (cases p)
  have "spread obj (p # src) = spread (set_prop k v obj) src"
    by (simp add: spread_def p)
  then show ?case
    using Cons.IH [of "set_prop k v obj"] by (simp add: keys_set_prop p Un_commute insert_commute)
qed

text \<open>The last assignment to a key is the one that a lookup sees.\<close>

lemma map_of_spread: "map_of (spread obj src) = map_of obj ++ map_of (rev src)"
  unfolding spread_def
  by (induction src arbitrary: obj)
     (auto simp: map_of_set_prop fun_eq_iff map_add_def split: option.splits)

lemma has_key_obj_lit: "has_key (obj_lit ps) k \<longleftrightarrow> k \<in> fst ` set ps"
  by (simp add: has_key_def obj_lit_def keys_spread)

lemma get_prop_obj_lit:
  "get_prop (obj_lit ps) k = (case map_of (rev ps) k of None \<Rightarrow> JUndefined | Some v \<Rightarrow> v)"
  by (simp add: get_prop_def obj_lit_def map_of_spread)

lemma key_in_image: "(k, v) \<in> set ps \<Longrightarrow> k \<in> fst ` set ps"
  by force

lemma distinct_set_prop:
  "distinct (map fst obj) \<Longrightarrow> distinct (map fst (set_prop k v obj))"
  by (induction obj) (auto simp: keys_set_prop)

lemma distinct_spread:
  "distinct (map fst obj) \<Longrightarrow> distinct (map fst (spread obj src))"
proof (induction src arbitrary: obj)
  case Nil
  then show ?case by (simp add: spread_def)
next
  case (Cons p src)
  obtain k v where p: "p = (k, v)" by (cases p)
  have "spread obj (p # src) = spread (set_prop k v obj) src"
    by (simp add: spread_def p)
  then show ?case
    using Cons.IH [of "set_prop k v obj"] Cons.prems by (simp add: distinct_set_prop)
qed

lemma distinct_obj_lit: "distinct (map fst (obj_lit ps))"
  by (simp add: obj_lit_def distinct_spread)

section \<open>What the client receives\<close>

lemma json_of_undefined_iff [simp]: "json_of v = JUndefined \<longleftrightarrow> v = JUndefined"
  by (cases v) simp_all

lemmas json_of_arr = json_of.simps(7)

lemmas json_of_obj = json_of.simps(8)

declare json_of.simps(7) [simp del]

declare json_of.simps(8) [simp del]

text \<open>
  Reading a property of a serialised object gives the serialised value, and a key is
  there exactly when its value is not \<open>undefined\<close>.
\<close>

lemma map_of_json_props:
  assumes "distinct (map fst ps)"
  shows "map_of (filter (\<lambda>kv. snd kv \<noteq> JUndefined) (map (map_prod id json_of) ps)) k
           = (case map_of ps k of
                None \<Rightarrow> None
              | Some v \<Rightarrow> if v = JUndefined then None else Some (json_of v))"
  using assms
proof (induction ps)
  case Nil
  show ?case by simp
next
  case (Cons p ps)
  obtain k' v' where p: "p = (k', v')" by (cases p)
  have "k' \<notin> fst ` set ps" and "distinct (map fst ps)"
    using Cons.prems by (simp_all add: p)
  then show ?case
    using Cons.IH
    by (auto simp: p map_of_eq_None_iff split: option.splits dest: key_in_image)
qed

lemma js_prop_json_obj:
  "distinct (map fst ps) \<Longrightarrow> js_prop (json_of (JObj ps)) k = json_of (get_prop ps k)"
  by (simp add: json_of_obj get_prop_def map_of_json_props split: option.splits)

lemma has_own_json_obj:
  assumes "distinct (map fst ps)"
  shows "has_own (json_of (JObj ps)) k \<longleftrightarrow> get_prop ps k \<noteq> JUndefined"
proof -
  let ?qs = "filter (\<lambda>kv. snd kv \<noteq> JUndefined) (map (map_prod id json_of) ps)"
  have "k \<in> fst ` set ?qs \<longleftrightarrow> map_of ?qs k \<noteq> None"
    by (simp add: map_of_eq_None_iff)
  then show ?thesis
    using assms
    by (auto simp: json_of_obj has_key_def get_prop_def map_of_json_props split: option.splits)
qed

lemma keys_of_json_obj: "set (keys_of (json_of (JObj ps))) \<subseteq> fst ` set ps"
  by (auto simp: json_of_obj dest: key_in_image)

lemma json_arr_objs:
  "json_of (JArr (map JObj objs)) = JArr (map (\<lambda>obj. json_of (JObj obj)) objs)"
  by (simp add: json_of_arr)

section \<open>The matcher computes the patterns' languages\<close>

inductive_cases m_NulE: "matches Nul w"
inductive_cases m_EpsE: "matches Eps w"
inductive_cases m_ClsE: "matches (Cls rs) w"
inductive_cases m_SeqE: "matches (Seq r s) w"
inductive_cases m_AltE: "matches (Alt r s) w"
inductive_cases m_PlusE: "matches (Plus r) w"
inductive_cases m_StarE: "matches (Star r) w"
inductive_cases m_RepE: "matches (Rep r lo hi) w"

lemma rep_lower: "matches (Rep r lo hi) w \<Longrightarrow> matches (Rep r (lo - 1) hi) w"
proof (induction "Rep r lo hi" w arbitrary: lo hi rule: matches.induct)
  case (m_rep0 hi)
  show ?case by (simp add: matches.m_rep0)
next
  case (m_rep u lo hi v)
  from m_rep(1) m_rep(4) show ?case by (rule matches.m_rep)
qed

lemma rep_pad:
  assumes "matches r []" and "matches (Rep r lo hi) w"
  shows "matches (Rep r (Suc lo) (Suc hi)) w"
  using matches.m_rep [of r "[]" "Suc lo" hi w] assms by simp

lemma rep_nullable:
  assumes "matches r []" and "lo \<le> hi"
  shows "matches (Rep r lo hi) []"
  using assms(2)
proof (induction lo arbitrary: hi)
  case 0
  show ?case by (rule m_rep0)
next
  case (Suc lo)
  then obtain hi' where hi: "hi = Suc hi'" and "lo \<le> hi'"
    by (cases hi) auto
  then have "matches (Rep r lo hi') []" using Suc.IH by blast
  with assms(1) show ?case unfolding hi by (rule rep_pad)
qed

lemma rep_empty_bounds: "matches (Rep r lo hi) w \<Longrightarrow> lo \<le> hi"
  by (induction "Rep r lo hi" w arbitrary: lo hi rule: matches.induct) auto

lemma nullable_iff: "nullable r \<longleftrightarrow> matches r []"
proof (induction r)
  case Nul
  show ?case by (auto elim: m_NulE)
next
  case Eps
  show ?case by (auto intro: m_eps)
next
  case (Cls rs)
  show ?case by (auto elim: m_ClsE)
next
  case (Seq r s)
  then show ?case
    by (auto elim!: m_SeqE intro: m_seq [of r "[]" s "[]", simplified])
next
  case (Alt r s)
  then show ?case by (auto elim: m_AltE intro: m_alt1 m_alt2)
next
  case (Star r)
  show ?case by (auto intro: m_star0)
next
  case (Plus r)
  then show ?case
    by (auto elim!: m_PlusE intro: m_plus [of r "[]" "[]", simplified] m_star0)
next
  case (Rep r lo hi)
  show ?case
  proof
    assume "nullable (Rep r lo hi)"
    then show "matches (Rep r lo hi) []"
      using Rep.IH by (auto intro: m_rep0 rep_nullable)
  next
    assume m: "matches (Rep r lo hi) []"
    then have "lo \<le> hi" by (rule rep_empty_bounds)
    moreover have "lo = 0 \<or> matches r []"
      using m by (auto elim: m_RepE)
    ultimately show "nullable (Rep r lo hi)"
      using Rep.IH by auto
  qed
qed

lemma star_cons:
  "matches (Star r) x \<Longrightarrow> x = c # w
   \<Longrightarrow> \<exists>u v. w = u @ v \<and> matches r (c # u) \<and> matches (Star r) v"
proof (induction "Star r" x arbitrary: w rule: matches.induct)
  case m_star0
  then show ?case by simp
next
  case (m_star u v)
  show ?case
  proof (cases u)
    case Nil
    with m_star show ?thesis by simp
  next
    case (Cons d u')
    with m_star(1,3,5) show ?thesis by auto
  qed
qed

lemma rep_cons:
  "matches (Rep r lo hi) x \<Longrightarrow> x = c # w
   \<Longrightarrow> 0 < hi \<and> (\<exists>u v. w = u @ v \<and> matches r (c # u) \<and> matches (Rep r (lo - 1) (hi - 1)) v)"
proof (induction "Rep r lo hi" x arbitrary: lo hi w rule: matches.induct)
  case (m_rep0 hi)
  then show ?case by simp
next
  case (m_rep u lo hi v)
  show ?case
  proof (cases u)
    case Nil
    with m_rep have v: "v = c # w" and e: "matches r []" by simp_all
    from m_rep(4) [OF v] obtain u2 v2 where
      hi: "0 < hi" and w: "w = u2 @ v2" and u2: "matches r (c # u2)"
      and v2: "matches (Rep r (lo - 1 - 1) (hi - 1)) v2"
      by blast
    from rep_pad [OF e v2] hi have "matches (Rep r (Suc (lo - 1 - 1)) hi) v2" by simp
    then have "matches (Rep r (Suc (lo - 1 - 1) - 1) hi) v2" by (rule rep_lower)
    then have "matches (Rep r (lo - 1 - 1) hi) v2" by simp
    moreover have "matches (Rep r (lo - 1) hi) v2"
    proof (cases "lo \<le> 1")
      case True
      then have "lo - 1 = lo - 1 - 1" by simp
      with calculation show ?thesis by simp
    next
      case False
      then have "Suc (lo - 1 - 1) = lo - 1" by simp
      with \<open>matches (Rep r (Suc (lo - 1 - 1)) hi) v2\<close> show ?thesis by simp
    qed
    ultimately show ?thesis using w u2 by auto
  next
    case (Cons d u')
    with m_rep(1,3,5) show ?thesis by auto
  qed
qed

lemma deriv_iff: "matches (deriv c r) w \<longleftrightarrow> matches r (c # w)"
proof (induction r arbitrary: w)
  case Nul
  show ?case by (auto elim: m_NulE)
next
  case Eps
  show ?case by (auto elim: m_NulE m_EpsE)
next
  case (Cls rs)
  show ?case by (auto elim: m_NulE m_EpsE m_ClsE intro: m_eps m_cls)
next
  case (Seq r s)
  show ?case
  proof
    assume "matches (deriv c (Seq r s)) w"
    then consider (left) "matches (Seq (deriv c r) s) w"
      | (right) "nullable r" and "matches (deriv c s) w"
      by (auto elim: m_AltE split: if_splits)
    then show "matches (Seq r s) (c # w)"
    proof cases
      case left
      then obtain u v where "w = u @ v" and "matches (deriv c r) u" and "matches s v"
        by (auto elim: m_SeqE)
      then show ?thesis
        using Seq.IH m_seq [of r "c # u" s v] by simp
    next
      case right
      then have "matches r []" and "matches s (c # w)"
        using Seq.IH by (simp_all add: nullable_iff)
      then show ?thesis
        using m_seq [of r "[]" s "c # w"] by simp
    qed
  next
    assume "matches (Seq r s) (c # w)"
    then obtain u v where uv: "c # w = u @ v" and u: "matches r u" and v: "matches s v"
      by (auto elim: m_SeqE)
    show "matches (deriv c (Seq r s)) w"
    proof (cases u)
      case Nil
      with uv u v have "nullable r" and "matches (deriv c s) w"
        using Seq.IH nullable_iff [of r] by auto
      then show ?thesis by (auto intro: m_alt2)
    next
      case (Cons d u')
      with uv u have "matches (deriv c r) u'" and "w = u' @ v"
        using Seq.IH by auto
      with v have "matches (Seq (deriv c r) s) w" by (auto intro: m_seq)
      then show ?thesis by (auto intro: m_alt1)
    qed
  qed
next
  case (Alt r s)
  then show ?case by (auto elim!: m_AltE intro: m_alt1 m_alt2)
next
  case (Star r)
  show ?case
  proof
    assume "matches (deriv c (Star r)) w"
    then obtain u v where "w = u @ v" and "matches (deriv c r) u" and "matches (Star r) v"
      by (auto elim: m_SeqE)
    then show "matches (Star r) (c # w)"
      using Star.IH m_star [of r "c # u" v] by simp
  next
    assume "matches (Star r) (c # w)"
    from star_cons [OF this refl] obtain u v where
      "w = u @ v" and "matches r (c # u)" and "matches (Star r) v" by blast
    then show "matches (deriv c (Star r)) w"
      using Star.IH by (auto intro: m_seq)
  qed
next
  case (Plus r)
  show ?case
  proof
    assume "matches (deriv c (Plus r)) w"
    then obtain u v where "w = u @ v" and "matches (deriv c r) u" and "matches (Star r) v"
      by (auto elim: m_SeqE)
    then show "matches (Plus r) (c # w)"
      using Plus.IH m_plus [of r "c # u" v] by simp
  next
    assume "matches (Plus r) (c # w)"
    then obtain u v where uv: "c # w = u @ v" and u: "matches r u" and v: "matches (Star r) v"
      by (auto elim: m_PlusE)
    have "\<exists>u' v'. w = u' @ v' \<and> matches r (c # u') \<and> matches (Star r) v'"
    proof (cases u)
      case Nil
      with uv have "v = c # w" by simp
      with v show ?thesis by (rule star_cons)
    next
      case (Cons d u')
      with uv u v show ?thesis by auto
    qed
    then show "matches (deriv c (Plus r)) w"
      using Plus.IH by (auto intro: m_seq)
  qed
next
  case (Rep r lo hi)
  show ?case
  proof
    assume d: "matches (deriv c (Rep r lo hi)) w"
    then have hi: "0 < hi" by (auto elim: m_NulE split: if_splits)
    with d obtain u v where "w = u @ v" and "matches (deriv c r) u"
      and "matches (Rep r (lo - 1) (hi - 1)) v"
      by (auto elim: m_SeqE)
    then show "matches (Rep r lo hi) (c # w)"
      using Rep.IH hi m_rep [of r "c # u" lo "hi - 1" v] by simp
  next
    assume "matches (Rep r lo hi) (c # w)"
    from rep_cons [OF this refl] obtain u v where
      "0 < hi" and "w = u @ v" and "matches r (c # u)" and "matches (Rep r (lo - 1) (hi - 1)) v"
      by blast
    then show "matches (deriv c (Rep r lo hi)) w"
      using Rep.IH by (auto intro: m_seq)
  qed
qed

theorem test_iff_matches: "test r s \<longleftrightarrow> matches r s"
  unfolding test_def
  by (induction s arbitrary: r) (simp_all add: nullable_iff deriv_iff)

lemma star_cls_iff: "matches (Star (Cls rs)) s \<longleftrightarrow> list_all (in_cls rs) s"
proof
  show "matches (Star (Cls rs)) s \<Longrightarrow> list_all (in_cls rs) s"
    by (induction "Star (Cls rs)" s rule: matches.induct) (auto elim: m_ClsE)
next
  show "list_all (in_cls rs) s \<Longrightarrow> matches (Star (Cls rs)) s"
  proof (induction s)
    case Nil
    show ?case by (rule m_star0)
  next
    case (Cons c s)
    then have "matches (Cls rs) [c]" and "matches (Star (Cls rs)) s"
      by (auto intro: m_cls)
    then have "matches (Star (Cls rs)) ([c] @ s)" by (rule m_star)
    then show ?case by simp
  qed
qed

lemma rep_cls_iff:
  "matches (Rep (Cls rs) lo hi) s \<longleftrightarrow> lo \<le> length s \<and> length s \<le> hi \<and> list_all (in_cls rs) s"
proof
  show "matches (Rep (Cls rs) lo hi) s \<Longrightarrow> lo \<le> length s \<and> length s \<le> hi \<and> list_all (in_cls rs) s"
    by (induction "Rep (Cls rs) lo hi" s arbitrary: lo hi rule: matches.induct)
       (auto elim: m_ClsE)
next
  show "lo \<le> length s \<and> length s \<le> hi \<and> list_all (in_cls rs) s \<Longrightarrow> matches (Rep (Cls rs) lo hi) s"
  proof (induction s arbitrary: lo hi)
    case Nil
    then show ?case by (auto intro: m_rep0)
  next
    case (Cons c s)
    then obtain hi' where hi: "hi = Suc hi'" by (cases hi) auto
    with Cons have "matches (Cls rs) [c]" and "matches (Rep (Cls rs) (lo - 1) hi') s"
      by (auto intro: m_cls)
    then have "matches (Rep (Cls rs) lo (Suc hi')) ([c] @ s)" by (rule m_rep)
    then show ?case by (simp add: hi)
  qed
qed

lemma in_A_to_z_cls: "in_cls [(CHR ''a'', CHR ''z''), (CHR ''A'', CHR ''z'')] = in_A_to_z"
  by (auto simp: in_cls_def in_A_to_z_def fun_eq_iff)

lemma is_digit_cls: "in_cls digit_cls = is_digit"
  by (auto simp: in_cls_def digit_cls_def is_digit_def fun_eq_iff)

text \<open>
  What the name check and the phone check of the register handler accept.  The name
  check admits every code unit from \<open>A\<close> to \<open>z\<close>, the six between \<open>Z\<close> and \<open>a\<close>
  included.
\<close>

lemma name_pattern_iff: "test name_pattern s \<longleftrightarrow> list_all in_A_to_z s"
  by (simp add: test_iff_matches name_pattern_def star_cls_iff in_A_to_z_cls)

lemma phone_pattern_iff: "test phone_pattern s \<longleftrightarrow> length s = 10 \<and> list_all is_digit s"
  by (auto simp: test_iff_matches phone_pattern_def rep_cls_iff is_digit_cls)

lemma alphabetic_in_A_to_z: "alphabetic c \<Longrightarrow> in_A_to_z c"
  by (auto simp: alphabetic_def in_A_to_z_def)

lemma email_pattern_examples:
  "test email_pattern ''a@b.com''
   \<and> test email_pattern ''first.last-x_y@mail.example.info''
   \<and> \<not> test email_pattern ''a@b.c''
   \<and> \<not> test email_pattern ''a@b.abcde''
   \<and> \<not> test email_pattern ''a b@c.de''
   \<and> \<not> test email_pattern ''@b.com''
   \<and> \<not> test email_pattern ''a@b''"
  by code_simp

section \<open>Replies\<close>

lemmas reply_simps = res_json_def res_status_send_def console_error_def

lemma json_of_failed [simp]: "json_of (failed m) = failed m"
  by (simp add: failed_def json_of_obj)

lemma failed_props:
  "js_prop (failed m) ''status'' = JStr ''FAILED''"
  "js_prop (failed m) ''message'' = JStr m"
  by (simp_all add: failed_def get_prop_def)

lemma doc_keys:
  "fst ` set (doc u) = {''_id'', ''email'', ''password'', ''name'', ''phonenumber''}
     \<union> (case avatar u of None \<Rightarrow> {} | Some a \<Rightarrow> {''avatar''})"
  by (auto simp: doc_def split: option.splits)

lemma doc_lookup:
  "map_of (rev (doc u)) ''password'' = Some (JStr (password u))"
  "map_of (rev (doc u)) ''email'' = Some (JStr (email u))"
  "map_of (rev (doc u)) ''name'' = Some (JStr (name u))"
  "map_of (rev (doc u)) ''phonenumber'' = Some (JStr (phonenumber u))"
  by (simp_all add: doc_def split: option.splits)

section \<open>Scenarios of the specification\<close>

text \<open>
  Registering Alice in a store without passengers succeeds; registering the same email
  again is refused as a duplicate.  Signing in with her password yields a token whose
  subject is her id.
\<close>

lemma register_scenario:
  "js_prop (body (fst (register sample_env (sample_store\<lparr>passengers := []\<rparr>) alice_registration)))
      ''status'' = JStr ''SUCCESS''
   \<and> js_prop (body (fst (register sample_env
         (snd (register sample_env (sample_store\<lparr>passengers := []\<rparr>) alice_registration))
         alice_registration))) ''message'' = JStr duplicate_message"
  by code_simp

lemma signin_scenario:
  "js_prop (body (signin sample_env sample_store alice_signin)) ''status'' = JStr ''Success''
   \<and> token_subject (js_prop (body (signin sample_env sample_store alice_signin)) ''token'')
       = JOid 1"
  by code_simp


section \<open>The join-request listing\<close>

lemma rideshareDetails_Inl:
  "rideshareDetails x = Inl e \<longleftrightarrow> snd x = None \<and> e = null_read ''_id''"
  by (auto simp: rideshareDetails_def split: option.splits)

text \<open>What the client receives of the object that the callback builds discloses the post.\<close>

lemma view_discloses:
  assumes "rideshareDetails (r, Some p) = Inr obj"
  shows "discloses r p (json_of (JObj obj))"
proof -
  define L where "L =
     [(''postId'', JOid (dp_id p)),
      (''startingLocation'', dp_startingLocation p),
      (''endingLocation'', dp_endingLocation p),
      (''startTime'', dp_startTime p),
      (''status'', JStr (jr_status r)),
      (''additionalNotes'', dp_additionalNotes p),
      (''numberOfSeats'', dp_numberOfSeats p)]
     @ and_obj (jr_status r = ''accepted'')
        [(''licensenumber'', dp_licensenumber p),
         (''model'', dp_model p),
         (''phonenumber'', dp_phonenumber p),
         (''email'', dp_email p)]"
  let ?v = "json_of (JObj obj)"
  have obj: "obj = obj_lit L"
    using assms by (simp add: rideshareDetails_def L_def)
  have val: "js_prop ?v k = json_of (case map_of (rev L) k of None \<Rightarrow> JUndefined | Some x \<Rightarrow> x)"
    for k
    unfolding obj by (simp only: js_prop_json_obj [OF distinct_obj_lit] get_prop_obj_lit)
  have own: "has_own ?v k \<longleftrightarrow> js_prop ?v k \<noteq> JUndefined" for k
    unfolding obj
    by (simp only: js_prop_json_obj [OF distinct_obj_lit] has_own_json_obj [OF distinct_obj_lit]
        json_of_undefined_iff)
  have keys: "set (keys_of ?v) \<subseteq> fst ` set L"
    unfolding obj using keys_of_json_obj [of "obj_lit L"]
    by (simp only: obj_lit_def keys_spread) simp
  have vals:
    "js_prop ?v ''postId'' = JOid (dp_id p)"
    "js_prop ?v ''status'' = JStr (jr_status r)"
    "js_prop ?v ''startingLocation'' = json_of (dp_startingLocation p)"
    "js_prop ?v ''endingLocation'' = json_of (dp_endingLocation p)"
    "js_prop ?v ''startTime'' = json_of (dp_startTime p)"
    "js_prop ?v ''additionalNotes'' = json_of (dp_additionalNotes p)"
    "js_prop ?v ''numberOfSeats'' = json_of (dp_numberOfSeats p)"
    "js_prop ?v ''licensenumber''
       = (if jr_status r = ''accepted'' then json_of (dp_licensenumber p) else JUndefined)"
    "js_prop ?v ''model''
       = (if jr_status r = ''accepted'' then json_of (dp_model p) else JUndefined)"
    "js_prop ?v ''phonenumber''
       = (if jr_status r = ''accepted'' then json_of (dp_phonenumber p) else JUndefined)"
    "js_prop ?v ''email''
       = (if jr_status r = ''accepted'' then json_of (dp_email p) else JUndefined)"
    unfolding val by (simp_all add: L_def and_obj_def)
  have contact: "has_own ?v k \<longleftrightarrow> jr_status r = ''accepted'' \<and> js_prop ?v k \<noteq> JUndefined"
    if "k \<in> set contact_keys" for k
    using that unfolding own by (auto simp: contact_keys_def vals split: if_splits)
  have only: "k \<in> set (''postId'' # route_keys @ contact_keys)" if "k \<in> set (keys_of ?v)" for k
  proof -
    from that keys have "k \<in> fst ` set L" by blast
    then show ?thesis
      by (auto simp: L_def and_obj_def route_keys_def contact_keys_def split: if_splits)
  qed
  show ?thesis
    unfolding discloses_def list_all_iff
    using vals own contact only by blast
qed

lemma js_map_Inr: "js_map f xs = Inr ys \<Longrightarrow> list_all2 (\<lambda>x y. f x = Inr y) xs ys"
  by (induction xs arbitrary: ys) (auto split: sum.splits)

lemma js_map_fails:
  "list_ex (\<lambda>x. \<exists>e. f x = Inl e) xs
   \<Longrightarrow> \<exists>e. js_map f xs = Inl e \<and> e \<in> {e. \<exists>x \<in> set xs. f x = Inl e}"
  by (induction xs) (auto split: sum.splits)

lemma listing_views:
  assumes "js_map rideshareDetails (map (populate st) rs) = Inr objs"
  shows "list_all2 (view_of st) rs (map (\<lambda>obj. json_of (JObj obj)) objs)"
proof -
  have "list_all2 (\<lambda>x y. rideshareDetails x = Inr y) (map (populate st) rs) objs"
    using assms by (rule js_map_Inr)
  then have "list_all2 (\<lambda>r obj. rideshareDetails (populate st r) = Inr obj) rs objs"
    by (simp add: list_all2_map1)
  then have "list_all2 (\<lambda>r obj. view_of st r (json_of (JObj obj))) rs objs"
  proof (rule list_all2_mono)
    fix r obj
    assume d: "rideshareDetails (populate st r) = Inr obj"
    then obtain p where p: "post_of st r = Some p"
      by (cases "post_of st r") (auto simp: post_of_def rideshareDetails_def)
    then have "populate st r = (r, Some p)"
      by (simp add: post_of_def populate_def)
    with d have "discloses r p (json_of (JObj obj))"
      by (simp add: view_discloses)
    with p show "view_of st r (json_of (JObj obj))"
      by (simp add: view_of_def)
  qed
  then show ?thesis by (simp add: list_all2_map2)
qed

lemma listing_aborts:
  assumes "list_ex (\<lambda>r. snd (populate st r) = None) rs"
  shows "js_map rideshareDetails (map (populate st) rs) = Inl (null_read ''_id'')"
proof -
  have "list_ex (\<lambda>x. \<exists>e. rideshareDetails x = Inl e) (map (populate st) rs)"
    using assms by (auto simp: list_ex_iff rideshareDetails_Inl)
  from js_map_fails [OF this] show ?thesis
    by (auto simp: rideshareDetails_Inl)
qed

lemma sample_listing_status:
  "http_status (get_my_join_requests sample_env sample_store 1) = 200"
  by code_simp

lemma sample_profile_status:
  "http_status (get_profile sample_env sample_store 1) = 200"
  by code_simp

text \<open>What the listing returns for Alice: the pending view first, then the accepted one.\<close>

lemma sample_listing_body:
  "body (get_my_join_requests sample_env sample_store 1) =
     JArr [JObj [(''postId'', JOid 10), (''startingLocation'', JStr ''Westwood''),
                 (''endingLocation'', JStr ''LAX''), (''startTime'', JStr ''2024-03-01T08:00''),
                 (''status'', JStr ''pending''), (''additionalNotes'', JStr ''no pets''),
                 (''numberOfSeats'', JNum 3)],
           JObj [(''postId'', JOid 11), (''startingLocation'', JStr ''LAX''),
                 (''endingLocation'', JStr ''Westwood''), (''startTime'', JStr ''2024-03-05T18:30''),
                 (''status'', JStr ''accepted''), (''numberOfSeats'', JNum 2),
                 (''licensenumber'', JStr ''7ABC123''), (''model'', JStr ''Civic''),
                 (''phonenumber'', JStr ''5551234567''), (''email'', JStr ''dave@cars.com'')]]"
  by code_simp




text \<open>
  Claim C3, as stated, fails.  Alice has two join requests with resolvable driver posts
  and one whose post is gone; both handlers answer 500 instead of returning the two valid
  entries with success.
\<close>

theorem dangling_reference_counterexample:
  "http_status (get_my_join_requests sample_env sample_dangling 1) = 500
   \<and> js_prop (body (get_my_join_requests sample_env sample_dangling 1)) ''message''
       = JStr ''Server error''
   \<and> http_status (get_profile sample_env sample_dangling 1) = 500"
  by code_simp

text \<open>
  Claim C3, amended.  If any join request of the passenger references a driver post that
  cannot be resolved, no listing is returned.  The my-join-requests handler writes the
  error to the console and answers with status 500 and the body
  \<open>{message: 'Server error', error: m}\<close>, where \<open>m\<close> is the error's message; the body
  holds no entry.  The profile handler writes the error to the console and answers with
  status 500 and the body \<open>{message: m}\<close>, or with status 404 and \<open>User not found\<close>
  when the database is up and the passenger is missing.  The error is the \<open>TypeError\<close>
  of reading \<open>_id\<close> of \<open>null\<close>, or the database's own when the read fails.
\<close>

theorem dangling_reference_aborts_listing:
  assumes "list_ex (\<lambda>r. snd (populate st r) = None) (requests_of st uid)"
  shows "get_my_join_requests env st uid =
           \<lparr>http_status = 500,
            body = JObj [(''message'', JStr ''Server error''),
                         (''error'', JStr (err_message (listing_error env)))],
            console = [listing_error env]\<rparr>
         \<and> get_profile env st uid =
           (if db_read_ok env \<and> findById (passengers st) uid = None
            then \<lparr>http_status = 404, body = JObj [(''message'', JStr ''User not found'')],
                  console = []\<rparr>
            else \<lparr>http_status = 500,
                  body = JObj [(''message'', JStr (err_message (listing_error env)))],
                  console = [listing_error env]\<rparr>)"
  using listing_aborts [OF assms]
  by (simp add: get_my_join_requests_def get_profile_def reply_simps Let_def listing_error_def
      json_of_obj split: option.splits)

theorem dangling_reference_aborts_listing_witness:
  "list_ex (\<lambda>r. snd (populate sample_dangling r) = None) (requests_of sample_dangling 1)
   \<and> get_my_join_requests sample_env sample_dangling 1 =
       \<lparr>http_status = 500,
        body = JObj [(''message'', JStr ''Server error''),
                     (''error'', JStr (err_message (null_read ''_id'')))],
        console = [null_read ''_id'']\<rparr>
   \<and> get_profile sample_env sample_dangling 1 =
       \<lparr>http_status = 500, body = JObj [(''message'', JStr (err_message (null_read ''_id'')))],
        console = [null_read ''_id'']\<rparr>"
proof -
  have h: "list_ex (\<lambda>r. snd (populate sample_dangling r) = None) (requests_of sample_dangling 1)"
    by code_simp
  have u: "findById (passengers sample_dangling) 1 \<noteq> None"
    by code_simp
  have d: "db_read_ok sample_env" by code_simp
  show ?thesis
    using h u d dangling_reference_aborts_listing [OF h, of sample_env]
    by (simp add: listing_error_def)
qed

section \<open>The profile view\<close>

text \<open>
  Claim C4, as stated, fails.  Alice's profile holds the key \<open>password\<close> with her stored
  hash.
\<close>

theorem profile_discloses_password_counterexample:
  "http_status (get_profile sample_env sample_store 1) = 200
   \<and> has_own (body (get_profile sample_env sample_store 1)) ''password''
   \<and> js_prop (body (get_profile sample_env sample_store 1)) ''password''
       = JStr ''$2b$10$password1''"
  by code_simp

text \<open>
  Claim C4, amended.  For every passenger that exists (the profile is answered with 200),
  the profile view contains the stored attributes of the identity, email, name and phone
  number, and also the stored hashed password: the whole document is spread into the
  view and the credential verifier is not left out.
\<close>

theorem profile_spreads_whole_document:
  assumes "http_status (get_profile env st uid) = 200"
  shows "\<exists>user. findById (passengers st) uid = Some user
           \<and> js_prop (body (get_profile env st uid)) ''email'' = JStr (email user)
           \<and> js_prop (body (get_profile env st uid)) ''name'' = JStr (name user)
           \<and> js_prop (body (get_profile env st uid)) ''phonenumber'' = JStr (phonenumber user)
           \<and> has_own (body (get_profile env st uid)) ''password''
           \<and> js_prop (body (get_profile env st uid)) ''password'' = JStr (password user)"
proof -
  from assms obtain user objs rest where
    user: "findById (passengers st) uid = Some user"
    and b: "body (get_profile env st uid) =
              json_of (JObj (obj_lit (doc user @ [(''avatar'', rest),
                 (''rideshares'', JArr (map JObj objs)),
                 (''passengerPosts'', JArr (map pp_json (posts_of st uid)))])))"
    by (auto simp: get_profile_def Let_def reply_simps
        split: sum.splits option.splits if_splits)
  show ?thesis
    unfolding b
    by (simp only: js_prop_json_obj [OF distinct_obj_lit] has_own_json_obj [OF distinct_obj_lit]
          get_prop_obj_lit)
       (simp add: user doc_lookup map_add_def)
qed

theorem profile_spreads_whole_document_witness:
  "http_status (get_profile sample_env sample_store 1) = 200
   \<and> (\<exists>user. findById (passengers sample_store) 1 = Some user
           \<and> js_prop (body (get_profile sample_env sample_store 1)) ''email'' = JStr (email user)
           \<and> js_prop (body (get_profile sample_env sample_store 1)) ''name'' = JStr (name user)
           \<and> js_prop (body (get_profile sample_env sample_store 1)) ''phonenumber''
               = JStr (phonenumber user)
           \<and> has_own (body (get_profile sample_env sample_store 1)) ''password''
           \<and> js_prop (body (get_profile sample_env sample_store 1)) ''password''
               = JStr (password user))"
  using profile_spreads_whole_document [of sample_env sample_store 1] sample_profile_status
  by blast

section \<open>Registration\<close>

text \<open>On four strings the handler is \<open>register\<close>; otherwise a call of \<open>trim\<close> throws.\<close>

lemma post_register_strings:
  "all_strings rq \<Longrightarrow> post_register env st rq = register env st (strings_of rq)"
  by (cases "rq_email rq"; cases "rq_password rq"; cases "rq_name rq"; cases "rq_phonenumber rq")
     (simp_all add: all_strings_def post_register_def strings_of_def)

lemma post_register_as_request: "post_register env st (as_request b) = register env st b"
  by (cases b) (simp add: post_register_def as_request_def)

lemma trim_receiver_throws: "\<not> is_str v \<Longrightarrow> \<exists>e. trim_receiver field v = Inl e"
  by (cases v) simp_all

lemma trim_receiver_returns: "is_str v \<Longrightarrow> trim_receiver field v = Inr (str_of v)"
  by (cases v) simp_all

lemma post_register_throws:
  assumes "\<not> all_strings rq"
  shows "\<exists>e. post_register env st rq = (express_error env e, st)"
proof -
  consider (email) "\<not> is_str (rq_email rq)"
    | (password) "is_str (rq_email rq)" "\<not> is_str (rq_password rq)"
    | (name) "is_str (rq_email rq)" "is_str (rq_password rq)" "\<not> is_str (rq_name rq)"
    | (phone) "is_str (rq_email rq)" "is_str (rq_password rq)" "is_str (rq_name rq)"
        "\<not> is_str (rq_phonenumber rq)"
    using assms by (auto simp: all_strings_def)
  then show ?thesis
  proof cases
    case email
    from trim_receiver_throws [OF this, of "''email''"] show ?thesis
      by (auto simp: post_register_def)
  next
    case password
    from trim_receiver_throws [OF password(2), of "''password''"] show ?thesis
      by (auto simp: post_register_def trim_receiver_returns [OF password(1)])
  next
    case name
    from trim_receiver_throws [OF name(3), of "''name''"] show ?thesis
      by (auto simp: post_register_def trim_receiver_returns [OF name(1)]
            trim_receiver_returns [OF name(2)])
  next
    case phone
    from trim_receiver_throws [OF phone(4), of "''phonenumber''"] show ?thesis
      by (auto simp: post_register_def trim_receiver_returns [OF phone(1)]
            trim_receiver_returns [OF phone(2)] trim_receiver_returns [OF phone(3)])
  qed
qed

text \<open>The reply of \<open>register\<close> when the trimmed email is already in the store.\<close>

lemma register_existing_email:
  assumes "emailExistsInBoth st (trim (rb_email b))"
  shows "snd (register env st b) = st
         \<and> body (fst (register env st b)) =
             failed (case failed_check b of
                       Some m \<Rightarrow> m
                     | None \<Rightarrow> if db_read_ok env then duplicate_message
                               else lookup_failed_message)"
  using assms
  by (simp add: register_def Let_def reply_simps failed_check_def duplicate_message_def
      lookup_failed_message_def)

text \<open>
  Claim C2, as stated, fails.  The email \<open>dave@cars.com\<close> belongs to a driver, yet a
  registration with that email and the name \<open>D4ve\<close> is refused as \<open>Invalid Name\<close>, not
  as a duplicate email: the format checks come before the lookup.
\<close>

theorem register_duplicate_counterexample:
  "emailExistsInBoth sample_store (trim (rb_email dave_digit))
   \<and> js_prop (body (fst (register sample_env sample_store dave_digit))) ''message''
       = JStr ''Invalid Name''"
  by code_simp

text \<open>
  Claim C2, amended.  For every registration request whose email field is a string that,
  trimmed, already belongs to an identity of either variant, the store is left as it was:
  no identity is created and none is overwritten.  When all four fields of the body are
  strings, the reply is a failure, \<open>{status: FAILED, message}\<close>, whose message is that of
  the first check that the trimmed fields do not pass, in the handler's order (an empty
  field, the email format, the name format, the phone format, the password length); when
  they pass all five, it is the duplicate-email error if the lookup succeeds and the
  lookup's own error if the database read fails.  When another field is missing or is not a
  string, the request is answered with HTTP status 500.
\<close>

theorem register_existing_email_fails:
  assumes "rq_email rq = JStr e" and "emailExistsInBoth st (trim e)"
  shows "snd (post_register env st rq) = st
         \<and> (all_strings rq \<longrightarrow>
              body (fst (post_register env st rq)) =
                failed (case failed_check (strings_of rq) of
                          Some m \<Rightarrow> m
                        | None \<Rightarrow> if db_read_ok env then duplicate_message
                                  else lookup_failed_message))
         \<and> (\<not> all_strings rq \<longrightarrow> http_status (fst (post_register env st rq)) = 500)"
proof (cases "all_strings rq")
  case True
  have "emailExistsInBoth st (trim (rb_email (strings_of rq)))"
    using assms by (simp add: strings_of_def)
  from register_existing_email [OF this, of env] True show ?thesis
    by (simp add: post_register_strings)
next
  case False
  from post_register_throws [OF this, of env st] False show ?thesis
    by (auto simp: express_error_def)
qed

text \<open>
  Three requests with Dave's email: one that passes every check and is refused as a
  duplicate, one refused for its name, and one whose phone number is a JSON number.
\<close>

theorem register_existing_email_fails_witness:
  "rq_email (as_request dave_again) = JStr '' dave@cars.com ''
   \<and> emailExistsInBoth sample_store (trim '' dave@cars.com '')
   \<and> all_strings (as_request dave_again)
   \<and> failed_check (strings_of (as_request dave_again)) = None
   \<and> db_read_ok sample_env
   \<and> snd (post_register sample_env sample_store (as_request dave_again)) = sample_store
   \<and> body (fst (post_register sample_env sample_store (as_request dave_again)))
       = failed duplicate_message
   \<and> all_strings (as_request dave_digit)
   \<and> failed_check (strings_of (as_request dave_digit)) = Some ''Invalid Name''
   \<and> body (fst (post_register sample_env sample_store (as_request dave_digit)))
       = failed ''Invalid Name''
   \<and> \<not> all_strings numeric_phone
   \<and> snd (post_register sample_env sample_store numeric_phone) = sample_store
   \<and> http_status (fst (post_register sample_env sample_store numeric_phone)) = 500"
proof -
  have a1: "rq_email (as_request dave_again) = JStr '' dave@cars.com ''" by code_simp
  have a2: "emailExistsInBoth sample_store (trim '' dave@cars.com '')" by code_simp
  have a3: "all_strings (as_request dave_again)" by code_simp
  have a4: "failed_check (strings_of (as_request dave_again)) = None" by code_simp
  have a5: "db_read_ok sample_env" by code_simp
  have b1: "rq_email (as_request dave_digit) = JStr ''dave@cars.com''" by code_simp
  have b2: "emailExistsInBoth sample_store (trim ''dave@cars.com'')" by code_simp
  have b3: "all_strings (as_request dave_digit)" by code_simp
  have b4: "failed_check (strings_of (as_request dave_digit)) = Some ''Invalid Name''"
    by code_simp
  have c1: "rq_email numeric_phone = JStr ''dave@cars.com''" by code_simp
  have c3: "\<not> all_strings numeric_phone" by code_simp
  show ?thesis
    using a1 a2 a3 a4 a5 b3 b4 c3
      register_existing_email_fails [OF a1 a2, of sample_env]
      register_existing_email_fails [OF b1 b2, of sample_env]
      register_existing_email_fails [OF c1 b2, of sample_env]
    by simp
qed

text \<open>
  Claim C6: the code departs from it.  The register handler answers \<open>Invalid Name\<close>
  exactly when the earlier checks pass and the trimmed name holds a code unit outside the
  range from \<open>A\<close> to \<open>z\<close>.  A name with a character that is not a letter but lies in
  that range (the brackets, the backslash, the caret, the underscore and the backquote) is not
  refused.
\<close>

theorem register_invalid_name_iff:
  "js_prop (body (fst (register env st b))) ''message'' = JStr ''Invalid Name'' \<longleftrightarrow>
     (trim (rb_email b) \<noteq> [] \<and> trim (rb_password b) \<noteq> [] \<and> trim (rb_name b) \<noteq> []
      \<and> trim (rb_phonenumber b) \<noteq> []
      \<and> test email_pattern (trim (rb_email b))
      \<and> \<not> list_all in_A_to_z (trim (rb_name b)))"
  by (simp add: register_def Let_def reply_simps failed_props name_pattern_iff get_prop_def
      json_of_obj split: option.splits)

text \<open>
  The name \<open>Al_ice\<close> contains an underscore, which is not a letter, yet the registration
  succeeds and the name is stored.
\<close>

theorem register_invalid_name_iff_witness:
  "\<not> list_all alphabetic (trim (rb_name underscore_name))
   \<and> list_all in_A_to_z (trim (rb_name underscore_name))
   \<and> js_prop (body (fst (register sample_env sample_store underscore_name))) ''message''
       \<noteq> JStr ''Invalid Name''
   \<and> js_prop (body (fst (register sample_env sample_store underscore_name))) ''status''
       = JStr ''SUCCESS''
   \<and> map name (passengers (snd (register sample_env sample_store underscore_name)))
       = [''Alice'', ''Bob'', ''Al_ice'']"
proof -
  have 1: "list_all in_A_to_z (trim (rb_name underscore_name))" by code_simp
  have 2: "\<not> list_all alphabetic (trim (rb_name underscore_name))" by code_simp
  have 3: "js_prop (body (fst (register sample_env sample_store underscore_name))) ''status''
             = JStr ''SUCCESS''
           \<and> map name (passengers (snd (register sample_env sample_store underscore_name)))
             = [''Alice'', ''Bob'', ''Al_ice'']"
    by code_simp
  show ?thesis
    using 1 2 3 register_invalid_name_iff [of sample_env sample_store underscore_name] by blast
qed

text \<open>
  Claim C10, as stated, fails.  A request whose body lacks the phone number makes
  \<open>phonenumber.trim()\<close> throw before the handler sends anything, and the request is
  answered with HTTP status 500.
\<close>

theorem register_missing_field_counterexample:
  "rq_phonenumber missing_phone = JUndefined
   \<and> http_status (fst (post_register sample_env sample_store missing_phone)) = 500"
  by code_simp

lemma register_replies:
  "http_status (fst (register env st b)) = 200
   \<and> (js_prop (body (fst (register env st b))) ''status'' = JStr ''SUCCESS''
      \<or> body (fst (register env st b)) \<in> set (map failed register_failures))"
  by (simp add: register_def Let_def reply_simps register_failures_def get_prop_def json_of_obj
      split: option.splits)

text \<open>
  Claim C10, amended.  Every reply that the register handler itself sends has HTTP status
  200, and this is what happens exactly when the four fields of the body are strings: the
  success and every failure case (empty fields, invalid email, invalid name, invalid phone
  number, weak password, failed lookup, duplicate email, hashing error, save error) are
  then told apart only by the body, which either has status \<open>SUCCESS\<close> or is
  \<open>{status: FAILED, message}\<close> with one of the handler's nine messages.  A request with a
  missing or non-string field is answered with HTTP status 500.
\<close>

theorem register_http_status:
  "http_status (fst (post_register env st rq)) = (if all_strings rq then 200 else 500)
   \<and> (all_strings rq \<longrightarrow>
        js_prop (body (fst (post_register env st rq))) ''status'' = JStr ''SUCCESS''
        \<or> body (fst (post_register env st rq)) \<in> set (map failed register_failures))"
proof (cases "all_strings rq")
  case True
  with register_replies [of env st "strings_of rq"] show ?thesis
    by (simp add: post_register_strings)
next
  case False
  from post_register_throws [OF this, of env st] False show ?thesis
    by (auto simp: express_error_def)
qed

text \<open>A failed save is delivered with status 200, a missing field with status 500.\<close>

theorem register_http_status_witness:
  "all_strings (as_request underscore_name)
   \<and> http_status (fst (post_register (sample_env\<lparr>db_write_ok := False\<rparr>) sample_store
         (as_request underscore_name))) = 200
   \<and> body (fst (post_register (sample_env\<lparr>db_write_ok := False\<rparr>) sample_store
         (as_request underscore_name)))
       = failed ''Error Occur when trying to save user account''
   \<and> \<not> all_strings missing_phone
   \<and> http_status (fst (post_register sample_env sample_store missing_phone)) = 500"
proof -
  have 1: "all_strings (as_request underscore_name)" by code_simp
  have 2: "\<not> all_strings missing_phone" by code_simp
  have 3: "body (fst (post_register (sample_env\<lparr>db_write_ok := False\<rparr>) sample_store
         (as_request underscore_name)))
       = failed ''Error Occur when trying to save user account''"
    by code_simp
  show ?thesis
    using 1 2 3
      register_http_status [of "sample_env\<lparr>db_write_ok := False\<rparr>" sample_store
        "as_request underscore_name"]
      register_http_status [of sample_env sample_store missing_phone]
    by simp
qed

section \<open>Local sign-in\<close>

text \<open>
  Claim C7, as stated, fails.  Alice's account exists and a password of three blanks does
  not match her stored hash, yet the failure is \<open>Empty input\<close>, not \<open>Wrong password\<close>:
  the handler trims both fields and refuses an empty one before it looks the account up.
\<close>

theorem signin_blank_password_counterexample:
  "find_email (passengers sample_store) (trim (sb_email blank_password)) = [alice]
   \<and> bcrypt_compare sample_env (trim (sb_password blank_password)) (password alice) = Some False
   \<and> js_prop (body (signin sample_env sample_store blank_password)) ''message''
       = JStr ''Empty input''"
  by code_simp

lemma no_token_in_failure: "\<not> has_own (body (res_json (failed m))) ''token''"
  by (simp add: reply_simps failed_def has_key_def json_of_obj)

text \<open>
  Claim C7, amended.  For every local sign-in attempt whose email and password are strings
  that are not empty after trimming, when the database read succeeds, against an existing
  passenger account (the first passenger that holds the trimmed email) whose stored hash
  the trimmed password does not match, the reply is the failure \<open>Wrong password\<close> and
  holds no token.  An attempt whose email and password are strings, one of them empty after
  trimming, is answered with the failure \<open>Empty input\<close>, also without a token.
\<close>

theorem signin_wrong_password:
  "(trim (sb_email b) \<noteq> [] \<and> trim (sb_password b) \<noteq> [] \<and> db_read_ok env
      \<and> find_email (passengers st) (trim (sb_email b)) = u # us
      \<and> bcrypt_compare env (trim (sb_password b)) (password u) = Some False
     \<longrightarrow> signin env st b = res_json (failed ''Wrong password'')
         \<and> \<not> has_own (body (signin env st b)) ''token'')
   \<and> (trim (sb_email b) = [] \<or> trim (sb_password b) = []
     \<longrightarrow> signin env st b = res_json (failed ''Empty input'')
         \<and> \<not> has_own (body (signin env st b)) ''token'')"
  by (auto simp: signin_def Let_def truthy_array_def no_token_in_failure)

theorem signin_wrong_password_witness:
  "trim (sb_email wrong_password) \<noteq> [] \<and> trim (sb_password wrong_password) \<noteq> []
   \<and> db_read_ok sample_env
   \<and> find_email (passengers sample_store) (trim (sb_email wrong_password)) = [alice]
   \<and> bcrypt_compare sample_env (trim (sb_password wrong_password)) (password alice) = Some False
   \<and> signin sample_env sample_store wrong_password = res_json (failed ''Wrong password'')
   \<and> \<not> has_own (body (signin sample_env sample_store wrong_password)) ''token''
   \<and> trim (sb_password blank_password) = []
   \<and> signin sample_env sample_store blank_password = res_json (failed ''Empty input'')
   \<and> \<not> has_own (body (signin sample_env sample_store blank_password)) ''token''
   \<and> trim (sb_email blank_email_signin) = []
   \<and> signin sample_env sample_store blank_email_signin = res_json (failed ''Empty input'')"
proof -
  have 1: "trim (sb_email wrong_password) \<noteq> []" by code_simp
  have 2: "trim (sb_password wrong_password) \<noteq> []" by code_simp
  have 3: "db_read_ok sample_env" by code_simp
  have 4: "find_email (passengers sample_store) (trim (sb_email wrong_password)) = [alice]"
    by code_simp
  have 5: "bcrypt_compare sample_env (trim (sb_password wrong_password)) (password alice)
             = Some False"
    by code_simp
  have 6: "trim (sb_password blank_password) = []" by code_simp
  have 7: "trim (sb_email blank_email_signin) = []" by code_simp
  show ?thesis
    using 1 2 3 4 5 6 7
      signin_wrong_password [of wrong_password sample_env sample_store alice "[]"]
      signin_wrong_password [of blank_password sample_env sample_store alice "[]"]
      signin_wrong_password [of blank_email_signin sample_env sample_store alice "[]"]
    by blast
qed

text \<open>Whatever the request, a sign-in reply holds a token only when it reports success.\<close>

lemma signin_token_only_on_success:
  "has_own (body (signin env st b)) ''token''
   \<Longrightarrow> js_prop (body (signin env st b)) ''status'' = JStr ''Success''"
  by (auto simp: signin_def Let_def truthy_array_def reply_simps failed_def has_key_def
        get_prop_def json_of_obj
      split: if_splits list.splits option.splits)

section \<open>Federated sign-up\<close>

text \<open>
  Claim C5: the code departs from it.  When the verified assertion carries an email that
  already belongs to an identity, the handler keeps the boolean of the existence check in
  \<open>user\<close>: the reply is a success whose token signs a payload with an undefined
  \<open>userId\<close> and whose \<open>user\<close> is \<open>true\<close>; the existing identity is not resolved.  No
  identity is created.
\<close>

theorem google_signup_existing_email:
  assumes "verifyGoogleToken env token = Some (e, n)" and "db_read_ok env"
    and "emailExistsInBoth st e"
  shows "google_signup env st token =
           (res_status_send 200
              (JObj [(''message'', JStr ''User authenticated successfully''),
                     (''token'', JJwt [(''userId'', JUndefined)] ''24h''),
                     (''user'', JBool True)]), st)"
  using assms by (simp add: google_signup_def Let_def)

text \<open>Alice exists with id 1; the token minted for her Google sign-up has no subject.\<close>

theorem google_signup_existing_email_witness:
  "verifyGoogleToken sample_env ''alice-id-token'' = Some (''a@b.com'', ''Alice'')
   \<and> db_read_ok sample_env
   \<and> emailExistsInBoth sample_store ''a@b.com''
   \<and> findOne_email (passengers sample_store) ''a@b.com'' = Some alice
   \<and> ident_id alice = 1
   \<and> token_subject
        (js_prop (body (fst (google_signup sample_env sample_store ''alice-id-token''))) ''token'')
       = JUndefined
   \<and> js_prop (body (fst (google_signup sample_env sample_store ''alice-id-token''))) ''user''
       = JBool True
   \<and> snd (google_signup sample_env sample_store ''alice-id-token'') = sample_store"
proof -
  have 1: "verifyGoogleToken sample_env ''alice-id-token'' = Some (''a@b.com'', ''Alice'')"
    by code_simp
  have 2: "db_read_ok sample_env" by code_simp
  have 3: "emailExistsInBoth sample_store ''a@b.com''" by code_simp
  have 4: "findOne_email (passengers sample_store) ''a@b.com'' = Some alice" by code_simp
  have 5: "ident_id alice = 1" by code_simp
  show ?thesis
    using 1 2 3 4 5 google_signup_existing_email [OF 1 2 3]
    by (simp add: reply_simps get_prop_def json_of_obj)
qed

text \<open>On the creating branch the token does embed the new identity's id.\<close>

lemma google_signup_new_email:
  assumes "verifyGoogleToken env token = Some (e, n)" and "db_read_ok env" and "db_write_ok env"
    and "\<not> emailExistsInBoth st e" and "bcrypt_hash env (random_secret env) = Some h"
  shows "token_subject (js_prop (body (fst (google_signup env st token))) ''token'')
           = JOid (fresh_id st)
         \<and> passengers (snd (google_signup env st token))
           = passengers st @ [\<lparr>ident_id = fresh_id st, email = e, password = h, name = n,
                                phonenumber = [], avatar = None\<rparr>]"
  using assms
  by (simp add: google_signup_def create_google_user_def insert_passenger_def Let_def
      reply_simps get_prop_def json_of_obj)

section \<open>Profile update\<close>

lemma find_Some_set: "find P xs = Some x \<Longrightarrow> x \<in> set xs \<and> P x"
  by (induction xs) (auto split: if_splits)

lemma findById_found: "findById ps uid = Some user \<Longrightarrow> user \<in> set ps \<and> ident_id user = uid"
  unfolding findById_def by (rule find_Some_set)

lemma findById_save:
  assumes "findById (passengers st) uid = Some user" and "ident_id u = uid"
  shows "findById (passengers (save_passenger u st)) uid = Some u"
proof -
  have "find (\<lambda>x. ident_id x = uid) ps = Some user
        \<Longrightarrow> find (\<lambda>x. ident_id x = uid)
              (map (\<lambda>x. if ident_id x = ident_id u then u else x) ps) = Some u"
    for ps
    using assms(2) by (induction ps) (auto split: if_splits)
  then show ?thesis
    using assms(1) by (simp add: findById_def save_passenger_def)
qed

lemma exists_own_email:
  assumes "findById (passengers st) uid = Some user"
  shows "emailExistsInBoth st (email user)"
proof -
  have "user \<in> set (passengers st)"
    using assms by (simp add: findById_found)
  then have "find (\<lambda>u. email u = email user) (passengers st) \<noteq> None"
    by (auto simp: find_None_iff)
  then show ?thesis
    by (simp add: emailExistsInBoth_def findOne_email_def)
qed

lemma update_name_phone_keeps [simp]:
  "ident_id (update_name_phone b user) = ident_id user"
  "email (update_name_phone b user) = email user"
  "password (update_name_phone b user) = password user"
  by (simp_all add: update_name_phone_def Let_def split: option.splits)

lemma update_name_phone_fields:
  "name (update_name_phone b user)
     = (case ub_name b of None \<Rightarrow> name user | Some n \<Rightarrow> if n = [] then name user else trim n)"
  "phonenumber (update_name_phone b user)
     = (case ub_phonenumber b of None \<Rightarrow> phonenumber user
        | Some p \<Rightarrow> if p = [] then phonenumber user else trim p)"
  by (simp_all add: update_name_phone_def Let_def split: option.splits)

text \<open>
  The guard works for a submitted email that is, character for character, the email of
  another identity, and it lets the identity's own current email through.
\<close>

lemma update_rejects_exact_duplicate:
  assumes "db_read_ok env" and "findById (passengers st) uid = Some user"
    and "ub_email b = Some e" and "e \<noteq> []" and "e \<noteq> email user" and "emailExistsInBoth st e"
  shows "update env st uid b =
           (res_status_send 400 (JObj [(''message'', JStr ''Email already in use'')]), st)"
  using assms by (simp add: update_def update_email_def Let_def)

lemma update_own_email_not_rejected:
  assumes "findById (passengers st) uid = Some user" and "ub_email b = Some (email user)"
  shows "http_status (fst (update env st uid b)) \<noteq> 400"
  using assms
  by (simp add: update_def update_email_def update_password_def Let_def reply_simps
      split: option.splits)

text \<open>
  Claim C8: the code departs from it.  The guard looks up the submitted string, the
  assignment stores the trimmed one.  When the submitted email is not itself in the store
  but its trimmed form is (it already belongs to an identity), the update succeeds and the
  passenger's stored email becomes that trimmed form.
\<close>

theorem update_padded_email_bypasses_guard:
  assumes "db_read_ok env" and "db_write_ok env"
    and "findById (passengers st) uid = Some user"
    and "ub_email b = Some e" and "ub_newPassword b = None"
    and "\<not> emailExistsInBoth st e" and "emailExistsInBoth st (trim e)"
  shows "http_status (fst (update env st uid b)) = 200
         \<and> (\<exists>u'. findById (passengers (snd (update env st uid b))) uid = Some u'
                  \<and> email u' = trim e)"
proof -
  have ne: "e \<noteq> email user"
    using assms(3,6) exists_own_email by blast
  have nonempty: "e \<noteq> []"
    using assms(6,7) by (auto simp: trim_def)
  let ?u = "(update_name_phone b user)\<lparr>email := trim e\<rparr>"
  have upd: "update env st uid b =
      (res_status_send 200
         (JObj [(''status'', JStr ''SUCCESS''), (''message'', JStr ''Profile updated successfully''),
                (''data'', JObj (doc ?u))]),
       save_passenger ?u st)"
    using assms ne nonempty
    by (simp add: update_def update_email_def update_password_def Let_def)
  have "ident_id ?u = uid"
    using assms(3) by (simp add: findById_found)
  then have "findById (passengers (save_passenger ?u st)) uid = Some ?u"
    using assms(3) by (rule findById_save [rotated])
  then show ?thesis
    by (simp add: upd reply_simps)
qed

text \<open>
  Alice (id 1) submits Bob's email with a leading blank: the update is answered with 200
  and both passengers now hold \<open>bob@x.org\<close>.
\<close>

theorem update_padded_email_bypasses_guard_witness:
  "db_read_ok sample_env \<and> db_write_ok sample_env
   \<and> findById (passengers sample_store) 1 = Some alice
   \<and> ub_email padded_email_update = Some '' bob@x.org''
   \<and> ub_newPassword padded_email_update = None
   \<and> \<not> emailExistsInBoth sample_store '' bob@x.org''
   \<and> emailExistsInBoth sample_store (trim '' bob@x.org'')
   \<and> http_status (fst (update sample_env sample_store 1 padded_email_update)) = 200
   \<and> map email (passengers (snd (update sample_env sample_store 1 padded_email_update)))
       = [''bob@x.org'', ''bob@x.org'']"
proof -
  have 1: "db_read_ok sample_env" by code_simp
  have 2: "db_write_ok sample_env" by code_simp
  have 3: "findById (passengers sample_store) 1 = Some alice" by code_simp
  have 4: "ub_email padded_email_update = Some '' bob@x.org''" by code_simp
  have 5: "ub_newPassword padded_email_update = None" by code_simp
  have 6: "\<not> emailExistsInBoth sample_store '' bob@x.org''" by code_simp
  have 7: "emailExistsInBoth sample_store (trim '' bob@x.org'')" by code_simp
  have 8: "map email (passengers (snd (update sample_env sample_store 1 padded_email_update)))
       = [''bob@x.org'', ''bob@x.org'']" by code_simp
  show ?thesis
    using 1 2 3 4 5 6 7 8 update_padded_email_bypasses_guard [OF 1 2 3 4 5 6 7] by simp
qed

text \<open>
  Claim C9, as stated, fails.  The submitted name \<open>'' B0b! ''\<close> is accepted, but what is
  stored is \<open>''B0b!''\<close>: the handler trims the value, it does not store it as it is.
\<close>

theorem update_as_is_counterexample:
  "http_status (fst (update sample_env sample_store 1 unvalidated_update)) = 200
   \<and> ub_name unvalidated_update = Some '' B0b! ''
   \<and> map name (passengers (snd (update sample_env sample_store 1 unvalidated_update)))
       = [''B0b!'', ''Bob'']"
  by code_simp

text \<open>
  Every update that the duplicate-email guard does not refuse stores the trimmed values.
\<close>

lemma update_not_refused:
  assumes "db_read_ok env" and "db_write_ok env" and "\<forall>pw. bcrypt_hash env pw \<noteq> None"
    and "findById (passengers st) uid = Some user"
    and "http_status (fst (update env st uid b)) \<noteq> 400"
  shows "http_status (fst (update env st uid b)) = 200
         \<and> (\<exists>u'. findById (passengers (snd (update env st uid b))) uid = Some u'
              \<and> name u' = (case ub_name b of None \<Rightarrow> name user
                            | Some n \<Rightarrow> if n = [] then name user else trim n)
              \<and> phonenumber u' = (case ub_phonenumber b of None \<Rightarrow> phonenumber user
                            | Some p \<Rightarrow> if p = [] then phonenumber user else trim p)
              \<and> email u' = (case ub_email b of None \<Rightarrow> email user
                            | Some e \<Rightarrow> if e = [] \<or> e = email user then email user else trim e))"
proof -
  let ?u1 = "update_name_phone b user"
  obtain u2 where u2: "update_email st b ?u1 = Inr u2"
    using assms(1,4,5)
    by (cases "update_email st b ?u1")
       (auto simp: update_def update_email_def Let_def reply_simps split: option.splits if_splits)
  have hash: "bcrypt_hash env pw \<noteq> None" for pw
    using assms(3) by blast
  obtain u3 where u3: "update_password env b u2 = Inr u3"
    by (cases "update_password env b u2")
       (auto simp: update_password_def hash split: option.splits if_splits)
  have upd: "update env st uid b =
      (res_status_send 200
         (JObj [(''status'', JStr ''SUCCESS''), (''message'', JStr ''Profile updated successfully''),
                (''data'', JObj (doc u3))]),
       save_passenger u3 st)"
    using assms(1,2,4) u2 u3 by (simp add: update_def)
  have f2: "ident_id u2 = uid \<and> name u2 = name ?u1 \<and> phonenumber u2 = phonenumber ?u1
            \<and> email u2 = (case ub_email b of None \<Rightarrow> email user
                            | Some e \<Rightarrow> if e = [] \<or> e = email user then email user else trim e)"
    using u2 assms(4)
    by (auto simp: update_email_def Let_def findById_found split: option.splits if_splits)
  have f3: "ident_id u3 = ident_id u2 \<and> name u3 = name u2 \<and> phonenumber u3 = phonenumber u2
            \<and> email u3 = email u2"
    using u3 by (auto simp: update_password_def split: option.splits if_splits)
  have "findById (passengers (save_passenger u3 st)) uid = Some u3"
    using assms(4) f2 f3 by (intro findById_save) auto
  then show ?thesis
    using f2 f3 by (simp add: upd reply_simps update_name_phone_fields)
qed

lemma email_not_taken_not_refused:
  assumes "findById (passengers st) uid = Some user" and "email_not_taken st user (ub_email b)"
  shows "http_status (fst (update env st uid b)) \<noteq> 400"
  using assms
  by (auto simp: update_def update_email_def update_password_def email_not_taken_def Let_def
        reply_simps
      split: option.splits if_splits)

text \<open>
  Claim C9, amended.  The update handler applies no format check.  For every update request
  of an existing passenger, with the database and the hashing working, whose email (if one
  is submitted) is not taken by an identity, neither as submitted nor trimmed, the reply is
  200 and the stored document holds, for each of name, phone number and email, the
  submitted value with the white space at its ends removed, whatever its characters or
  length; a field that is absent or empty, and an email equal to the current one, leave the
  stored value as it was.
\<close>

theorem update_stores_trimmed_unvalidated:
  assumes "db_read_ok env" and "db_write_ok env" and "\<forall>pw. bcrypt_hash env pw \<noteq> None"
    and "findById (passengers st) uid = Some user"
    and "email_not_taken st user (ub_email b)"
  shows "http_status (fst (update env st uid b)) = 200
         \<and> (\<exists>u'. findById (passengers (snd (update env st uid b))) uid = Some u'
              \<and> name u' = (case ub_name b of None \<Rightarrow> name user
                            | Some n \<Rightarrow> if n = [] then name user else trim n)
              \<and> phonenumber u' = (case ub_phonenumber b of None \<Rightarrow> phonenumber user
                            | Some p \<Rightarrow> if p = [] then phonenumber user else trim p)
              \<and> email u' = (case ub_email b of None \<Rightarrow> email user
                            | Some e \<Rightarrow> if e = [] \<or> e = email user then email user else trim e))"
  using assms(1,2,3,4) email_not_taken_not_refused [OF assms(4,5)]
  by (rule update_not_refused)

text \<open>
  Alice's name becomes \<open>B0b!\<close>, her phone number \<open>12\<close> and her email \<open>not an email\<close>.
\<close>

theorem update_stores_trimmed_unvalidated_witness:
  "db_read_ok sample_env \<and> db_write_ok sample_env
   \<and> (\<forall>pw. bcrypt_hash sample_env pw \<noteq> None)
   \<and> findById (passengers sample_store) 1 = Some alice
   \<and> email_not_taken sample_store alice (ub_email unvalidated_update)
   \<and> http_status (fst (update sample_env sample_store 1 unvalidated_update)) = 200
   \<and> (\<exists>u'. findById (passengers (snd (update sample_env sample_store 1 unvalidated_update))) 1
             = Some u'
         \<and> name u' = ''B0b!'' \<and> phonenumber u' = ''12'' \<and> email u' = ''not an email'')"
proof -
  have 1: "db_read_ok sample_env" by code_simp
  have 2: "db_write_ok sample_env" by code_simp
  have 3: "\<forall>pw. bcrypt_hash sample_env pw \<noteq> None" by (simp add: sample_env_def)
  have 4: "findById (passengers sample_store) 1 = Some alice" by code_simp
  have 5: "email_not_taken sample_store alice (ub_email unvalidated_update)"
    by code_simp
  have 6: "ub_name unvalidated_update = Some '' B0b! ''
           \<and> ub_phonenumber unvalidated_update = Some ''12''
           \<and> ub_email unvalidated_update = Some ''not an email''"
    by code_simp
  have 7: "trim '' B0b! '' = ''B0b!'' \<and> trim ''12'' = ''12''
           \<and> trim ''not an email'' = ''not an email''
           \<and> ''not an email'' \<noteq> email alice"
    by code_simp
  show ?thesis
    using 1 2 3 4 5 6 7 update_stores_trimmed_unvalidated [OF 1 2 3 4 5] by simp
qed

end
